theory Spec2Isabelle
  imports Complex_Main
begin

section \<open>History entries\<close>

text \<open>
  A history entry is the object \<^verbatim>\<open>{timestamp, status}\<close> that \<^verbatim>\<open>addToHistory\<close> pushes and that
  \<^verbatim>\<open>JSON.parse\<close> gives back from a domain file. The code looks at \<^verbatim>\<open>entry.timestamp\<close> in two
  ways only: its truthiness (\<^verbatim>\<open>entry.timestamp && ...\<close>) and the instant of
  \<^verbatim>\<open>new Date(entry.timestamp)\<close>. A value of the field is modelled by these two observations:
  \<^item> \<open>TsMissing\<close>: the field is absent, \<^verbatim>\<open>undefined\<close> or the empty string: falsy, and the date is
    invalid (\<^verbatim>\<open>getTime()\<close> is NaN);
  \<^item> \<open>TsNull\<close>: \<^verbatim>\<open>null\<close>, \<^verbatim>\<open>false\<close> or \<^verbatim>\<open>0\<close>: falsy, and the date is the epoch (0 ms);
  \<^item> \<open>TsGarbage\<close>: a truthy value that is no date (\<^verbatim>\<open>"yesterday-ish"\<close>): the date is invalid;
  \<^item> \<open>TsTime t\<close>: a truthy value denoting the instant \<open>t\<close>, in milliseconds since the epoch, such
    as the ISO string written by \<^verbatim>\<open>toISOString()\<close>.
\<close>

datatype tsval = TsMissing | TsNull | TsGarbage | TsTime int

fun truthy_ts :: "tsval \<Rightarrow> bool" where
  "truthy_ts TsMissing = False"
| "truthy_ts TsNull = False"
| "truthy_ts TsGarbage = True"
| "truthy_ts (TsTime t) = True"

text \<open>\<^verbatim>\<open>new Date(v).getTime()\<close>; \<open>None\<close> is NaN (an invalid date).\<close>

fun getTime :: "tsval \<Rightarrow> int option" where
  "getTime TsMissing = None"
| "getTime TsNull = Some 0"
| "getTime TsGarbage = None"
| "getTime (TsTime t) = Some t"

text \<open>
  The \<^verbatim>\<open>status\<close> field is a string, or absent (\<open>None\<close>). A string is truthy when it is not
  empty.
\<close>

record entry =
  timestamp :: tsval
  status :: "string option"

fun truthy_status :: "string option \<Rightarrow> bool" where
  "truthy_status None = False"
| "truthy_status (Some s) = (s \<noteq> [])"

text \<open>
  \<^verbatim>\<open>new Date(entry.timestamp) >= bound\<close>: a comparison with NaN is false.
\<close>

definition date_ge :: "tsval \<Rightarrow> int \<Rightarrow> bool" where
  "date_ge v bound = (case getTime v of None \<Rightarrow> False | Some t \<Rightarrow> t \<ge> bound)"

section \<open>The 24-hour grid of \<^verbatim>\<open>generateHistoryPage\<close>\<close>

text \<open>
  \<^verbatim>\<open>
  const now = new Date();
  const minutesInDay = 24 * 60;
  for (let i = 0; i < minutesInDay; i++) { grid.push({ ..., status: 'unknown', ... }); }
  history.forEach(entry => {
    const entryTime = new Date(entry.timestamp);
    const rawMinutes = (entryTime.getTime() - (now.getTime() - minutesInDay * 60 * 1000)) / (60 * 1000);
    const minutesFromStart = Math.max(0, Math.min(minutesInDay - 1, Math.round(rawMinutes)));
    if (minutesFromStart >= 0 && minutesFromStart < minutesInDay) {
      grid[minutesFromStart].status = entry.status;
    }
  });
  \<close>
  Instants are whole milliseconds, the quotient is taken exactly (a rational), and
  \<^verbatim>\<open>Math.round\<close> rounds to the nearest integer with ties towards \<open>+\<infinity>\<close>. The grid is modelled
  by the sequence of its cells' \<^verbatim>\<open>status\<close>; the other fields of a cell (\<^verbatim>\<open>time\<close>, \<^verbatim>\<open>hour\<close>,
  \<^verbatim>\<open>minute\<close>) are set once when the grid is created and the fill loop never reads or writes them.
\<close>

definition minutesInDay :: int where
  "minutesInDay = 24 * 60"

definition Math_round :: "rat \<Rightarrow> int" where
  "Math_round q = \<lfloor>q + 1 / 2\<rfloor>"

definition rawMinutes :: "int \<Rightarrow> int \<Rightarrow> rat" where
  "rawMinutes now t = of_int (t - (now - minutesInDay * 60 * 1000)) / of_int (60 * 1000)"

definition minutesFromStart :: "int \<Rightarrow> int \<Rightarrow> int" where
  "minutesFromStart now t = max 0 (min (minutesInDay - 1) (Math_round (rawMinutes now t)))"

definition initGrid :: "string option list" where
  "initGrid = replicate (nat minutesInDay) (Some ''unknown'')"

definition fillEntry :: "int \<Rightarrow> string option list \<Rightarrow> entry \<Rightarrow> string option list" where
  "fillEntry now grid e =
     (case getTime (timestamp e) of
        None \<Rightarrow> grid
      | Some t \<Rightarrow>
          (let m = minutesFromStart now t
           in if m \<ge> 0 \<and> m < minutesInDay then grid[nat m := entry.status e] else grid))"

definition gridStatus :: "int \<Rightarrow> entry list \<Rightarrow> string option list" where
  "gridStatus now history = foldl (fillEntry now) initGrid history"

text \<open>
  The distance, in milliseconds, of an instant from the centre of the one-minute cell that
  \<^verbatim>\<open>Math.round\<close> puts it in, for the window ending at \<open>now\<close>. It is 0 for an instant a whole number
  of minutes before \<open>now\<close> and 30000 for an instant on a rounding boundary.
\<close>

definition centreDistance :: "int \<Rightarrow> int \<Rightarrow> int" where
  "centreDistance now t =
     \<bar>(t - (now - minutesInDay * 60 * 1000) + 30000) mod 60000 - 30000\<bar>"

section \<open>Durable storage\<close>

text \<open>
  The data directory, seen through the calls the code makes. A file is modelled by what
  \<^verbatim>\<open>fs.readFileSync\<close> followed by \<^verbatim>\<open>JSON.parse\<close> makes of it:
  \<^item> \<open>Unreadable\<close>: the path exists and \<^verbatim>\<open>readFileSync\<close> throws (a directory, no permission);
  \<^item> \<open>Unparseable\<close>: \<^verbatim>\<open>JSON.parse\<close> throws a SyntaxError;
  \<^item> \<open>NotArray\<close>: the text parses to a value that is no array, so \<^verbatim>\<open>history.filter\<close> throws a
    TypeError;
  \<^item> \<open>Entries es\<close>: the text parses to an array. An element is \<^verbatim>\<open>null\<close> (\<open>ENull\<close>: reading
    a property of it throws a TypeError) or a value whose properties can be read (\<open>EObj\<close>; a
    number or a string element reads as an entry with both fields missing).
  \<open>writable\<close> says whether \<^verbatim>\<open>fs.writeFileSync\<close> succeeds once \<^verbatim>\<open>ensureDataDir\<close> has run;
  \<^verbatim>\<open>ensureDataDir\<close> catches its own errors. Writing \<^verbatim>\<open>JSON.stringify(history)\<close> and parsing the
  file again gives the array of the same entries.
\<close>

datatype elem = ENull | EObj entry

datatype stored = Unreadable | Unparseable | NotArray | Entries "elem list"

record fsys =
  files :: "string \<rightharpoonup> stored"
  writable :: bool

text \<open>
  The \<^verbatim>\<open>try\<close> part of a load up to the parsed array; \<open>None\<close> when an exception is thrown.
\<close>

fun parseHistory :: "stored \<Rightarrow> elem list option" where
  "parseHistory Unreadable = None"
| "parseHistory Unparseable = None"
| "parseHistory NotArray = None"
| "parseHistory (Entries es) = Some es"

text \<open>
  \<^verbatim>\<open>history.filter(entry => ...)\<close> with a callback that reads \<^verbatim>\<open>entry.timestamp\<close>: the callback
  throws on a \<^verbatim>\<open>null\<close> element, and then the whole call throws (\<open>None\<close>).
\<close>

fun filterElems :: "(entry \<Rightarrow> bool) \<Rightarrow> elem list \<Rightarrow> entry list option" where
  "filterElems p [] = Some []"
| "filterElems p (ENull # es) = None"
| "filterElems p (EObj e # es) =
     (case filterElems p es of
        None \<Rightarrow> None
      | Some r \<Rightarrow> Some (if p e then e # r else r))"

text \<open>\<^verbatim>\<open>30 * 24 * 60 * 60 * 1000\<close>, the retention window in milliseconds.\<close>

definition retentionMillis :: int where
  "retentionMillis = 30 * 24 * 60 * 60 * 1000"

text \<open>The filter of \<^verbatim>\<open>addToHistory\<close>: \<^verbatim>\<open>new Date(entry.timestamp) >= oneMonthAgo\<close>.\<close>

definition recent :: "int \<Rightarrow> entry \<Rightarrow> bool" where
  "recent now e = date_ge (timestamp e) (now - retentionMillis)"

subsection \<open>\<^verbatim>\<open>index.js\<close>\<close>

text \<open>
  \<^verbatim>\<open>domain.replace(/[^a-zA-Z0-9.-]/g, '_') + '.json'\<close>
\<close>

definition safeChar :: "char \<Rightarrow> bool" where
  "safeChar c =
     (let n = (of_char c :: nat)
      in (97 \<le> n \<and> n \<le> 122) \<or> (65 \<le> n \<and> n \<le> 90) \<or> (48 \<le> n \<and> n \<le> 57)
         \<or> n = 46 \<or> n = 45)"

definition getDomainFileName :: "string \<Rightarrow> string" where
  "getDomainFileName domain = map (\<lambda>c. if safeChar c then c else CHR ''_'') domain @ ''.json''"

text \<open>
  \<^verbatim>\<open>
  function saveDomainHistory(domain, history) {
    try {
      ensureDataDir();
      ...
      fs.writeFileSync(filePath, JSON.stringify(history, null, 2));
    } catch (error) { console.warn(...); }
  }
  \<close>
\<close>

definition saveDomainHistory :: "string \<Rightarrow> entry list \<Rightarrow> fsys \<Rightarrow> fsys" where
  "saveDomainHistory domain history fs =
     (if writable fs
      then fs\<lparr>files := (files fs)(getDomainFileName domain \<mapsto> Entries (map EObj history))\<rparr>
      else fs)"

text \<open>
  \<^verbatim>\<open>
  function loadDomainHistory(domain) {
    try {
      ...
      if (fs.existsSync(filePath)) {
        const data = fs.readFileSync(filePath, 'utf8');
        const history = JSON.parse(data);
        const oneMonthAgo = new Date(Date.now() - 30 * 24 * 60 * 60 * 1000);
        return history.filter(entry =>
          entry.timestamp && entry.status &&
          new Date(entry.timestamp) >= oneMonthAgo);
      }
    } catch (error) { console.warn(...); }
    return [];
  }
  \<close>
\<close>

definition valid_recent :: "int \<Rightarrow> entry \<Rightarrow> bool" where
  "valid_recent now e =
     (truthy_ts (timestamp e) \<and> truthy_status (entry.status e)
      \<and> date_ge (timestamp e) (now - 30 * 24 * 60 * 60 * 1000))"

definition loadDomainHistory :: "int \<Rightarrow> string \<Rightarrow> fsys \<Rightarrow> entry list" where
  "loadDomainHistory now domain fs =
     (case files fs (getDomainFileName domain) of
        None \<Rightarrow> []
      | Some content \<Rightarrow>
          (case parseHistory content of
             None \<Rightarrow> []
           | Some es \<Rightarrow>
               (case filterElems (valid_recent now) es of
                  None \<Rightarrow> []
                | Some h \<Rightarrow> h)))"

subsection \<open>\<^verbatim>\<open>persistence.js\<close>\<close>

text \<open>
  The module \<^verbatim>\<open>persistence.js\<close> has functions of the same names; they carry the prefix
  \<open>persistence_\<close> here. Its save filters by age before it writes, and its load filters by age
  only.
\<close>

definition MAX_AGE_DAYS :: int where
  "MAX_AGE_DAYS = 30"

definition getDomainFilePath :: "string \<Rightarrow> string" where
  "getDomainFilePath domain = map (\<lambda>c. if safeChar c then c else CHR ''_'') domain @ ''.json''"

definition persistence_recent :: "int \<Rightarrow> entry \<Rightarrow> bool" where
  "persistence_recent now e =
     date_ge (timestamp e) (now - MAX_AGE_DAYS * 24 * 60 * 60 * 1000)"

definition persistence_loadDomainHistory :: "int \<Rightarrow> string \<Rightarrow> fsys \<Rightarrow> entry list" where
  "persistence_loadDomainHistory now domain fs =
     (case files fs (getDomainFilePath domain) of
        None \<Rightarrow> []
      | Some content \<Rightarrow>
          (case parseHistory content of
             None \<Rightarrow> []
           | Some es \<Rightarrow>
               (case filterElems (persistence_recent now) es of
                  None \<Rightarrow> []
                | Some h \<Rightarrow> h)))"

definition persistence_saveDomainHistory :: "int \<Rightarrow> string \<Rightarrow> entry list \<Rightarrow> fsys \<Rightarrow> fsys" where
  "persistence_saveDomainHistory now domain history fs =
     (if writable fs
      then fs\<lparr>files := (files fs)(getDomainFilePath domain \<mapsto>
                Entries (map EObj (filter (persistence_recent now) history)))\<rparr>
      else fs)"

section \<open>The monitor's state\<close>

text \<open>
  \<^verbatim>\<open>healthState\<close> maps a domain to its state object, \<^verbatim>\<open>healthHistory\<close> maps a domain to its array
  of entries, and \<open>disk\<close> is the data directory \<^verbatim>\<open>config.persistDataDir\<close>.
\<close>

record health =
  status :: string
  lastCheck :: "int option"
  lastError :: "string option"
  consecutiveErrors :: nat
  consecutiveSuccesses :: nat
  responseTime :: "int option"

record world =
  healthState :: "string \<rightharpoonup> health"
  healthHistory :: "string \<rightharpoonup> entry list"
  disk :: fsys

text \<open>The state object that the start of \<^verbatim>\<open>index.js\<close> stores for every configured domain.\<close>

definition initialHealth :: health where
  "initialHealth =
     \<lparr>status = ''unknown'', lastCheck = None, lastError = None,
      consecutiveErrors = 0, consecutiveSuccesses = 0, responseTime = None\<rparr>"

definition initialWorld :: "string list \<Rightarrow> fsys \<Rightarrow> world" where
  "initialWorld domains fs =
     \<lparr>healthState = (\<lambda>d. if d \<in> set domains then Some initialHealth else None),
      healthHistory = (\<lambda>d. if d \<in> set domains then Some [] else None),
      disk = fs\<rparr>"

text \<open>
  The first statements of \<^verbatim>\<open>addToHistory\<close>, with the pushed entry as a parameter: the
  array of the domain is created when it is missing, and the entry is pushed onto it.
  \<^verbatim>\<open>
  if (!healthHistory.has(domain)) { healthHistory.set(domain, []); }
  const history = healthHistory.get(domain);
  history.push(entry);
  \<close>
  This is also how a sample with a timestamp of its own gets into the in-memory history
  (\<^verbatim>\<open>addToHistory\<close> always stamps the current time); the repository's tests place such
  entries in \<^verbatim>\<open>healthHistory\<close> directly.
\<close>

definition pushEntry :: "string \<Rightarrow> entry \<Rightarrow> world \<Rightarrow> world" where
  "pushEntry domain e w =
     w\<lparr>healthHistory := (healthHistory w)(domain \<mapsto>
          (case healthHistory w domain of None \<Rightarrow> [] | Some h \<Rightarrow> h) @ [e])\<rparr>"

text \<open>
  \<^verbatim>\<open>
  function addToHistory(domain, status) {
    if (!healthHistory.has(domain)) { healthHistory.set(domain, []); }
    const history = healthHistory.get(domain);
    const now = new Date();
    history.push({ timestamp: now.toISOString(), status: status });
    const oneMonthAgo = new Date(now.getTime() - 30 * 24 * 60 * 60 * 1000);
    const filteredHistory = history.filter(entry => new Date(entry.timestamp) >= oneMonthAgo);
    healthHistory.set(domain, filteredHistory);
    saveDomainHistory(domain, filteredHistory);
  }
  \<close>
  The clock value read by \<^verbatim>\<open>new Date()\<close> is the parameter \<open>now\<close>.
\<close>

definition addToHistory :: "int \<Rightarrow> string \<Rightarrow> string \<Rightarrow> world \<Rightarrow> world" where
  "addToHistory now domain st w =
     (let history = (case healthHistory w domain of None \<Rightarrow> [] | Some h \<Rightarrow> h)
                      @ [\<lparr>timestamp = TsTime now, entry.status = Some st\<rparr>];
          filteredHistory = filter (recent now) history
      in w\<lparr>healthHistory := (healthHistory w)(domain \<mapsto> filteredHistory),
            disk := saveDomainHistory domain filteredHistory (disk w)\<rparr>)"

text \<open>
  \<^verbatim>\<open>loadAllPersistedData\<close>: every configured domain whose loaded history is not empty gets
  it as its in-memory history.
\<close>

fun loadAllPersistedData :: "int \<Rightarrow> string list \<Rightarrow> world \<Rightarrow> world" where
  "loadAllPersistedData now [] w = w"
| "loadAllPersistedData now (domain # domains) w =
     (let history = loadDomainHistory now domain (disk w)
      in loadAllPersistedData now domains
           (if length history > 0
            then w\<lparr>healthHistory := (healthHistory w)(domain \<mapsto> history)\<rparr>
            else w))"

section \<open>\<^verbatim>\<open>checkDomain\<close>\<close>

text \<open>
  Template literals print a number in decimal.
\<close>

definition digitChar :: "nat \<Rightarrow> char" where
  "digitChar n = ''0123456789'' ! n"

fun digits :: "nat \<Rightarrow> string" where
  "digits n = (if n < 10 then [digitChar n] else digits (n div 10) @ [digitChar (n mod 10)])"

declare digits.simps [simp del]

definition toString :: "int \<Rightarrow> string" where
  "toString i = (if i < 0 then CHR ''-'' # digits (nat (- i)) else digits (nat i))"

text \<open>\<^verbatim>\<open>String.prototype.includes\<close>: the second string occurs in the first.\<close>

fun includesStr :: "string \<Rightarrow> string \<Rightarrow> bool" where
  "includesStr [] sub = (sub = [])"
| "includesStr (c # cs) sub = (take (length sub) (c # cs) = sub \<or> includesStr cs sub)"

text \<open>
  The outcome of \<^verbatim>\<open>makeHttpRequest\<close>: the promise is rejected with an error (its message), or
  resolved with the status code and the body.
\<close>

datatype probe = Rejected string | Response int string

record config =
  timeoutSeconds :: int

text \<open>
  The checks at the head of the \<^verbatim>\<open>try\<close> block. The result is the message of the error that is
  thrown, \<open>None\<close> when the block runs on to the success part.
  \<^verbatim>\<open>
  const response = await makeHttpRequest(domain);
  const responseTime = Date.now() - startTime;
  if (response.statusCode < 200 || response.statusCode >= 400) {
    throw new Error(`HTTP ${response.statusCode}`);
  }
  if (responseTime > config.timeoutSeconds * 1000) {
    throw new Error(`Response time ${responseTime}ms exceeds ${config.timeoutSeconds * 1000}ms`);
  }
  if (response.body.includes('A PHP Error was encountered')) {
    throw new Error('PHP Error detected in page content');
  }
  \<close>
\<close>

definition checkResponse :: "config \<Rightarrow> probe \<Rightarrow> int \<Rightarrow> string option" where
  "checkResponse cfg p rt =
     (case p of
        Rejected msg \<Rightarrow> Some msg
      | Response statusCode body \<Rightarrow>
          if statusCode < 200 \<or> statusCode \<ge> 400
            then Some (''HTTP '' @ toString statusCode)
          else if rt > timeoutSeconds cfg * 1000
            then Some (''Response time '' @ toString rt @ ''ms exceeds ''
                        @ toString (timeoutSeconds cfg * 1000) @ ''ms'')
          else if includesStr body ''A PHP Error was encountered''
            then Some ''PHP Error detected in page content''
          else None)"

text \<open>
  The messages handed to \<^verbatim>\<open>sendSlackNotification\<close>, by kind:
  \<^item> \<open>Recovered domain\<close>: "\<open>domain\<close> is now healthy after 10 consecutive successful checks";
  \<^item> \<open>Alert domain msg\<close>: "\<open>domain\<close> is unhealthy: \<open>msg\<close>";
  \<^item> \<open>Sustained domain msg\<close>: "\<open>domain\<close> has been unhealthy for 5 minutes: \<open>msg\<close>".
  The sink \<^verbatim>\<open>sendSlackNotification\<close> is an input: for a message it answers \<open>None\<close> when the
  promise resolves (also when no webhook is configured and the message is only logged) and
  \<open>Some err\<close> when the promise is rejected with the error message \<open>err\<close>.
\<close>

datatype notification = Recovered string | Alert string string | Sustained string string

type_synonym sink = "notification \<Rightarrow> string option"

text \<open>
  What one call of \<^verbatim>\<open>checkDomain\<close> leaves: the state, the messages handed to the sink in
  order, and whether the promise of \<^verbatim>\<open>checkDomain\<close> itself is rejected.
\<close>

record outcome =
  world_after :: world
  sent :: "notification list"
  rejected :: bool

text \<open>
  The \<^verbatim>\<open>catch\<close> block, entered with the error message \<open>msg\<close>, the state object \<open>state\<close> as
  it is at that point and the messages \<open>sent0\<close> already handed to the sink.
  \<^verbatim>\<open>
  state.status = 'unhealthy';
  state.lastCheck = new Date();
  state.lastError = error.message;
  state.consecutiveErrors++;
  state.consecutiveSuccesses = 0;
  state.responseTime = Date.now() - startTime;
  addToHistory(domain, 'unhealthy');
  if (state.consecutiveErrors === 1) { await sendSlackNotification(...); }
  if (state.consecutiveErrors === 5) { await sendSlackNotification(...); }
  \<close>
  A rejected send leaves the block at once.
\<close>

text \<open>The assignments to the state object in the \<^verbatim>\<open>catch\<close> block.\<close>

definition unhealthyUpdate :: "int \<Rightarrow> int \<Rightarrow> string \<Rightarrow> health \<Rightarrow> health" where
  "unhealthyUpdate startTime now msg state =
     state\<lparr>status := ''unhealthy'', lastCheck := Some now, lastError := Some msg,
            consecutiveErrors := consecutiveErrors state + 1,
            consecutiveSuccesses := 0,
            responseTime := Some (now - startTime)\<rparr>"

definition checkDomain_catch ::
  "sink \<Rightarrow> int \<Rightarrow> int \<Rightarrow> string \<Rightarrow> string \<Rightarrow> health \<Rightarrow> world \<Rightarrow> notification list \<Rightarrow> outcome"
where
  "checkDomain_catch snk startTime now domain msg state w sent0 =
     (let state' = unhealthyUpdate startTime now msg state;
          w' = addToHistory now domain ''unhealthy''
                 (w\<lparr>healthState := (healthState w)(domain \<mapsto> state')\<rparr>);
          first = (if consecutiveErrors state' = 1 then [Alert domain msg] else []);
          failed = (consecutiveErrors state' = 1 \<and> snk (Alert domain msg) \<noteq> None)
      in if failed
         then \<lparr>world_after = w', sent = sent0 @ first, rejected = True\<rparr>
         else if consecutiveErrors state' = 5
         then \<lparr>world_after = w', sent = sent0 @ first @ [Sustained domain msg],
                rejected = (snk (Sustained domain msg) \<noteq> None)\<rparr>
         else \<lparr>world_after = w', sent = sent0 @ first, rejected = False\<rparr>)"

text \<open>
  \<^verbatim>\<open>checkDomain\<close>. \<open>startTime\<close> is the clock before the request; \<open>now\<close> is the clock when the
  request has settled, and stands for every later reading within the call. A domain without a
  state object makes every assignment to \<^verbatim>\<open>state\<close> throw, in the \<^verbatim>\<open>catch\<close> block as well.
  \<^verbatim>\<open>
  state.status = 'healthy';
  state.lastCheck = new Date();
  state.lastError = null;
  state.consecutiveErrors = 0;
  state.consecutiveSuccesses++;
  state.responseTime = responseTime;
  addToHistory(domain, 'healthy');
  if (state.consecutiveSuccesses === 10) { await sendSlackNotification(...); }
  \<close>
\<close>

text \<open>The assignments to the state object in the success part of the \<^verbatim>\<open>try\<close> block.\<close>

definition healthyUpdate :: "int \<Rightarrow> int \<Rightarrow> health \<Rightarrow> health" where
  "healthyUpdate startTime now state =
     state\<lparr>status := ''healthy'', lastCheck := Some now, lastError := None,
            consecutiveErrors := 0,
            consecutiveSuccesses := consecutiveSuccesses state + 1,
            responseTime := Some (now - startTime)\<rparr>"

definition checkDomain ::
  "config \<Rightarrow> sink \<Rightarrow> int \<Rightarrow> int \<Rightarrow> probe \<Rightarrow> string \<Rightarrow> world \<Rightarrow> outcome"
where
  "checkDomain cfg snk startTime now p domain w =
     (case healthState w domain of
        None \<Rightarrow> \<lparr>world_after = w, sent = [], rejected = True\<rparr>
      | Some state \<Rightarrow>
          (case checkResponse cfg p (now - startTime) of
             Some msg \<Rightarrow> checkDomain_catch snk startTime now domain msg state w []
           | None \<Rightarrow>
               (let state1 = healthyUpdate startTime now state;
                    w1 = addToHistory now domain ''healthy''
                           (w\<lparr>healthState := (healthState w)(domain \<mapsto> state1)\<rparr>)
                in if consecutiveSuccesses state1 = 10
                   then (case snk (Recovered domain) of
                           None \<Rightarrow> \<lparr>world_after = w1, sent = [Recovered domain], rejected = False\<rparr>
                         | Some err \<Rightarrow>
                             checkDomain_catch snk startTime now domain err state1 w1
                               [Recovered domain])
                   else \<lparr>world_after = w1, sent = [], rejected = False\<rparr>)))"

text \<open>
  The calls of \<^verbatim>\<open>checkDomain\<close> that the interval timer makes, one after the other. A call is
  given by its domain, the two clock readings, the outcome of the request and the behaviour
  of the sink during the call.
\<close>

datatype call = Call string int int probe sink

fun callDomain :: "call \<Rightarrow> string" where
  "callDomain (Call domain startTime now p snk) = domain"

fun callSink :: "call \<Rightarrow> sink" where
  "callSink (Call domain startTime now p snk) = snk"

fun runCall :: "config \<Rightarrow> world \<Rightarrow> call \<Rightarrow> outcome" where
  "runCall cfg w (Call domain startTime now p snk) = checkDomain cfg snk startTime now p domain w"

fun runChecks :: "config \<Rightarrow> world \<Rightarrow> call list \<Rightarrow> outcome list" where
  "runChecks cfg w [] = []"
| "runChecks cfg w (c # cs) =
     (let r = runCall cfg w c in r # runChecks cfg (world_after r) cs)"

text \<open>The state after a run of checks.\<close>

definition finalWorld :: "world \<Rightarrow> outcome list \<Rightarrow> world" where
  "finalWorld w rs = (if rs = [] then w else world_after (last rs))"

text \<open>
  A call passes when the checks at the head of its \<^verbatim>\<open>try\<close> block throw nothing, and fails
  otherwise.
\<close>

fun passes :: "config \<Rightarrow> call \<Rightarrow> bool" where
  "passes cfg (Call domain startTime now p snk) = (checkResponse cfg p (now - startTime) = None)"

text \<open>The kinds of message, for counting.\<close>

fun isAlert :: "notification \<Rightarrow> bool" where
  "isAlert (Alert d m) = True"
| "isAlert n = False"

fun isSustained :: "notification \<Rightarrow> bool" where
  "isSustained (Sustained d m) = True"
| "isSustained n = False"

fun isRecovered :: "notification \<Rightarrow> bool" where
  "isRecovered (Recovered d) = True"
| "isRecovered n = False"

section \<open>Grid mapper: lemmas\<close>

lemma Math_round_quotient:
  assumes "0 < b"
  shows "Math_round (of_int a / of_int b) = (2 * a + b) div (2 * b)"
proof -
  have "(of_int a / of_int b + 1 / 2 :: rat) = of_int (2 * a + b) / of_int (2 * b)"
    using assms by (simp add: field_simps)
  then show ?thesis
    by (simp only: Math_round_def floor_divide_of_int_eq)
qed

lemma Math_round_rawMinutes:
  "Math_round (rawMinutes now t) = (t - now + 86430000) div 60000"
proof -
  have "Math_round (rawMinutes now t)
      = (2 * (t - (now - minutesInDay * 60 * 1000)) + 60 * 1000) div (2 * (60 * 1000))"
    unfolding rawMinutes_def by (rule Math_round_quotient) simp
  also have "\<dots> = (2 * (t - now + 86430000)) div (2 * 60000)"
    by (simp add: minutesInDay_def)
  also have "\<dots> = (t - now + 86430000) div 60000"
    by (rule div_mult_mult1) simp
  finally show ?thesis .
qed

lemma minutesFromStart_eq:
  "minutesFromStart now t = max 0 (min 1439 ((t - now + 86430000) div 60000))"
  by (simp add: minutesFromStart_def Math_round_rawMinutes minutesInDay_def)

lemma minutesFromStart_range:
  "0 \<le> minutesFromStart now t \<and> minutesFromStart now t \<le> minutesInDay - 1"
  by (simp add: minutesFromStart_def minutesInDay_def)

lemma length_fillEntry [simp]: "length (fillEntry now grid e) = length grid"
  by (simp add: fillEntry_def Let_def split: option.splits)

lemma length_foldl_fillEntry [simp]:
  "length (foldl (fillEntry now) grid history) = length grid"
  by (induction history arbitrary: grid) simp_all

lemma length_gridStatus: "length (gridStatus now history) = 1440"
  by (simp add: gridStatus_def initGrid_def minutesInDay_def)

lemma fillEntry_valid:
  assumes "getTime (timestamp e) = Some t"
  shows "fillEntry now grid e = grid[nat (minutesFromStart now t) := entry.status e]"
  using assms minutesFromStart_range [of now t]
  by (simp add: fillEntry_def Let_def)

lemma same_cell:
  fixes y d :: int
  assumes "\<bar>d\<bar> + \<bar>y mod 60000 - 30000\<bar> < 30000"
  shows "(y - d) div 60000 = y div 60000"
proof -
  define q where "q = y div 60000"
  define r where "r = y mod 60000"
  have y: "y = 60000 * q + r"
    by (simp add: q_def r_def)
  have lo: "0 \<le> r - d"
    using assms unfolding r_def by linarith
  have hi: "r - d < 60000"
    using assms unfolding r_def by linarith
  have "(y - d) div 60000 = (r - d + q * 60000) div 60000"
    by (simp add: y algebra_simps)
  also have "\<dots> = (r - d) div 60000 + q"
    by simp
  also have "(r - d) div 60000 = 0"
    using lo hi by (rule div_pos_pos_trivial)
  finally show ?thesis
    by (simp add: q_def)
qed

lemma minutesFromStart_jitter:
  assumes "\<bar>now2 - now1\<bar> + centreDistance now1 t < 30000"
  shows "minutesFromStart now2 t = minutesFromStart now1 t"
proof -
  have eq: "t - now2 + 86430000 = (t - now1 + 86430000) - (now2 - now1)"
    by simp
  have "\<bar>now2 - now1\<bar> + \<bar>(t - now1 + 86430000) mod 60000 - 30000\<bar> < 30000"
    using assms by (simp add: centreDistance_def minutesInDay_def algebra_simps)
  then have "((t - now1 + 86430000) - (now2 - now1)) div 60000
           = (t - now1 + 86430000) div 60000"
    by (rule same_cell)
  then show ?thesis
    by (simp only: minutesFromStart_eq eq)
qed

lemma foldl_fillEntry_jitter:
  assumes "\<forall>e \<in> set history. \<forall>t. getTime (timestamp e) = Some t \<longrightarrow>
             \<bar>now2 - now1\<bar> + centreDistance now1 t < 30000"
  shows "foldl (fillEntry now2) grid history = foldl (fillEntry now1) grid history"
  using assms
proof (induction history arbitrary: grid)
  case Nil
  show ?case by simp
next
  case (Cons e history)
  have "fillEntry now2 grid e = fillEntry now1 grid e"
  proof (cases "getTime (timestamp e)")
    case None
    then show ?thesis by (simp add: fillEntry_def)
  next
    case (Some t)
    with Cons.prems have "\<bar>now2 - now1\<bar> + centreDistance now1 t < 30000"
      by simp
    then have "minutesFromStart now2 t = minutesFromStart now1 t"
      by (rule minutesFromStart_jitter)
    with Some show ?thesis by (simp add: fillEntry_def)
  qed
  with Cons show ?case by simp
qed

section \<open>Grid mapper: claims\<close>

lemma gridStatus_snoc:
  "gridStatus now (h @ [e]) = fillEntry now (gridStatus now h) e"
  by (simp add: gridStatus_def)

lemma gridStatus_append:
  "gridStatus now (h @ h2) = foldl (fillEntry now) (gridStatus now h) h2"
  by (simp add: gridStatus_def)

lemma slot_in_grid: "nat (minutesFromStart now t) < length (gridStatus now h)"
  using minutesFromStart_range [of now t]
  unfolding length_gridStatus minutesInDay_def by linarith

lemma gridStatus_last_write:
  assumes "getTime (timestamp e) = Some t"
  shows "gridStatus now (h @ [e]) ! nat (minutesFromStart now t) = entry.status e"
  using slot_in_grid [of now t h]
  by (simp add: gridStatus_snoc fillEntry_valid [OF assms])

lemma foldl_fillEntry_untouched:
  assumes "\<forall>e' \<in> set h2. \<forall>t'. getTime (timestamp e') = Some t' \<longrightarrow>
             minutesFromStart now t' \<noteq> minutesFromStart now t"
  shows "foldl (fillEntry now) grid h2 ! nat (minutesFromStart now t)
           = grid ! nat (minutesFromStart now t)"
  using assms
proof (induction h2 arbitrary: grid)
  case Nil
  show ?case by simp
next
  case (Cons e' h2)
  have "fillEntry now grid e' ! nat (minutesFromStart now t) = grid ! nat (minutesFromStart now t)"
  proof (cases "getTime (timestamp e')")
    case None
    then show ?thesis by (simp add: fillEntry_def)
  next
    case (Some t')
    with Cons.prems have "minutesFromStart now t' \<noteq> minutesFromStart now t"
      by simp
    with minutesFromStart_range [of now t'] minutesFromStart_range [of now t]
    have "nat (minutesFromStart now t') \<noteq> nat (minutesFromStart now t)"
      by linarith
    then show ?thesis
      by (simp add: fillEntry_valid [OF Some])
  qed
  moreover from Cons.prems
  have "foldl (fillEntry now) (fillEntry now grid e') h2 ! nat (minutesFromStart now t)
      = fillEntry now grid e' ! nat (minutesFromStart now t)"
    by (intro Cons.IH) simp
  ultimately show ?case by simp
qed

text \<open>
  C2. A sample whose timestamp is exactly \<open>now - windowDuration\<close> is written to slot 0 of the
  grid, a sample whose timestamp is \<open>now\<close> is written to slot 1439, and the slot computed for
  any instant lies within 0 and 1439, which is within the grid. Every sample with an instant is
  written by the fill loop into the grid at its slot, and it stays there unless a later sample
  of the history falls into the same slot: there is no write out of bounds and no drop.
\<close>

theorem grid_boundary:
  "minutesFromStart now (now - minutesInDay * 60 * 1000) = 0
   \<and> minutesFromStart now now = minutesInDay - 1
   \<and> 0 \<le> minutesFromStart now t \<and> minutesFromStart now t \<le> minutesInDay - 1
   \<and> length (gridStatus now h) = nat minutesInDay
   \<and> (getTime (timestamp e) = Some (now - minutesInDay * 60 * 1000) \<longrightarrow>
        gridStatus now (h @ [e]) ! 0 = entry.status e)
   \<and> (getTime (timestamp e) = Some now \<longrightarrow>
        gridStatus now (h @ [e]) ! nat (minutesInDay - 1) = entry.status e)
   \<and> (getTime (timestamp e) = Some t \<longrightarrow>
        nat (minutesFromStart now t) < length (gridStatus now (h @ [e]))
        \<and> gridStatus now (h @ [e]) ! nat (minutesFromStart now t) = entry.status e)
   \<and> (getTime (timestamp e) = Some t
        \<and> (\<forall>e' \<in> set h2. \<forall>t'. getTime (timestamp e') = Some t' \<longrightarrow>
              minutesFromStart now t' \<noteq> minutesFromStart now t) \<longrightarrow>
        gridStatus now (h @ [e] @ h2) ! nat (minutesFromStart now t) = entry.status e)"
proof -
  have start: "minutesFromStart now (now - minutesInDay * 60 * 1000) = 0"
    by (simp add: minutesFromStart_eq minutesInDay_def)
  have finish: "minutesFromStart now now = minutesInDay - 1"
    by (simp add: minutesFromStart_eq minutesInDay_def)
  have range: "0 \<le> minutesFromStart now t \<and> minutesFromStart now t \<le> minutesInDay - 1"
    by (rule minutesFromStart_range)
  have len: "length (gridStatus now h) = nat minutesInDay"
    by (simp add: length_gridStatus minutesInDay_def)
  have first: "getTime (timestamp e) = Some (now - minutesInDay * 60 * 1000) \<longrightarrow>
        gridStatus now (h @ [e]) ! 0 = entry.status e"
  proof
    assume "getTime (timestamp e) = Some (now - minutesInDay * 60 * 1000)"
    from gridStatus_last_write [OF this, of now h] show "gridStatus now (h @ [e]) ! 0 = entry.status e"
      by (simp only: start nat_0)
  qed
  have last: "getTime (timestamp e) = Some now \<longrightarrow>
        gridStatus now (h @ [e]) ! nat (minutesInDay - 1) = entry.status e"
  proof
    assume "getTime (timestamp e) = Some now"
    from gridStatus_last_write [OF this, of now h]
    show "gridStatus now (h @ [e]) ! nat (minutesInDay - 1) = entry.status e"
      by (simp only: finish)
  qed
  have any: "getTime (timestamp e) = Some t \<longrightarrow>
        nat (minutesFromStart now t) < length (gridStatus now (h @ [e]))
        \<and> gridStatus now (h @ [e]) ! nat (minutesFromStart now t) = entry.status e"
    using slot_in_grid [of now t "h @ [e]"] gridStatus_last_write [of e t now h] by blast
  have kept: "getTime (timestamp e) = Some t
        \<and> (\<forall>e' \<in> set h2. \<forall>t'. getTime (timestamp e') = Some t' \<longrightarrow>
              minutesFromStart now t' \<noteq> minutesFromStart now t) \<longrightarrow>
        gridStatus now (h @ [e] @ h2) ! nat (minutesFromStart now t) = entry.status e"
  proof
    assume a: "getTime (timestamp e) = Some t
        \<and> (\<forall>e' \<in> set h2. \<forall>t'. getTime (timestamp e') = Some t' \<longrightarrow>
              minutesFromStart now t' \<noteq> minutesFromStart now t)"
    then have valid: "getTime (timestamp e) = Some t"
      and later: "\<forall>e' \<in> set h2. \<forall>t'. getTime (timestamp e') = Some t' \<longrightarrow>
              minutesFromStart now t' \<noteq> minutesFromStart now t"
      by blast+
    have "gridStatus now (h @ [e] @ h2) = foldl (fillEntry now) (gridStatus now (h @ [e])) h2"
      using gridStatus_append [of now "h @ [e]" h2] by simp
    then have "gridStatus now (h @ [e] @ h2) ! nat (minutesFromStart now t)
        = gridStatus now (h @ [e]) ! nat (minutesFromStart now t)"
      by (simp only: foldl_fillEntry_untouched [OF later])
    with gridStatus_last_write [OF valid, of now h]
    show "gridStatus now (h @ [e] @ h2) ! nat (minutesFromStart now t) = entry.status e"
      by simp
  qed
  show ?thesis
    by (rule conjI [OF start conjI [OF finish conjI [OF conjunct1 [OF range]
        conjI [OF conjunct2 [OF range] conjI [OF len conjI [OF first conjI [OF last
        conjI [OF any kept]]]]]]]])
qed

theorem grid_boundary_witness:
  "gridStatus 86400000
     [\<lparr>timestamp = TsTime 0, status = Some ''healthy''\<rparr>,
      \<lparr>timestamp = TsTime 86400000, status = Some ''unhealthy''\<rparr>] ! 0 = Some ''healthy''
   \<and> gridStatus 86400000
     [\<lparr>timestamp = TsTime 0, status = Some ''healthy''\<rparr>,
      \<lparr>timestamp = TsTime 86400000, status = Some ''unhealthy''\<rparr>] ! 1439 = Some ''unhealthy''"
proof -
  let ?e0 = "\<lparr>timestamp = TsTime 0, status = Some ''healthy''\<rparr>"
  let ?e1 = "\<lparr>timestamp = TsTime 86400000, status = Some ''unhealthy''\<rparr>"
  have s0: "minutesFromStart 86400000 0 = 0"
    by (simp add: minutesFromStart_eq)
  have s1: "minutesFromStart 86400000 86400000 = 1439"
    by (simp add: minutesFromStart_eq)
  note t0 = grid_boundary [where now = 86400000 and t = 0 and e = ?e0 and h = "[]"
      and ?h2.0 = "[?e1]"]
  note t1 = grid_boundary [where now = 86400000 and t = 86400000 and e = ?e1 and h = "[?e0]"
      and ?h2.0 = "[]"]
  have v0: "getTime (timestamp ?e0) = Some 0
        \<and> (\<forall>e' \<in> set [?e1]. \<forall>t'. getTime (timestamp e') = Some t' \<longrightarrow>
              minutesFromStart 86400000 t' \<noteq> minutesFromStart 86400000 0)"
    by (simp add: s0 s1)
  have v1: "getTime (timestamp ?e1) = Some 86400000"
    by simp
  from t0 have "getTime (timestamp ?e0) = Some 0
        \<and> (\<forall>e' \<in> set [?e1]. \<forall>t'. getTime (timestamp e') = Some t' \<longrightarrow>
              minutesFromStart 86400000 t' \<noteq> minutesFromStart 86400000 0) \<longrightarrow>
        gridStatus 86400000 ([] @ [?e0] @ [?e1]) ! nat (minutesFromStart 86400000 0)
          = entry.status ?e0"
    by (elim conjE)
  from mp [OF this v0] have a: "gridStatus 86400000 [?e0, ?e1] ! 0 = Some ''healthy''"
    by (simp add: s0)
  from t1 have "getTime (timestamp ?e1) = Some 86400000 \<longrightarrow>
        nat (minutesFromStart 86400000 86400000) < length (gridStatus 86400000 ([?e0] @ [?e1]))
        \<and> gridStatus 86400000 ([?e0] @ [?e1]) ! nat (minutesFromStart 86400000 86400000)
            = entry.status ?e1"
    by (elim conjE)
  from mp [OF this v1] have b: "gridStatus 86400000 [?e0, ?e1] ! 1439 = Some ''unhealthy''"
    by (simp add: s1)
  from a b show ?thesis
    by (rule conjI)
qed

text \<open>
  C1, as amended. For any history and two values of \<open>now\<close> that differ by less than half a
  slot (30000 ms), the two grids are identical provided that, for every sample, the difference
  of the two values of \<open>now\<close> plus the distance of the sample from the centre of its slot
  (under the first \<open>now\<close>) stays below half a slot. For samples on slot centres this is any
  jitter under half a slot.
\<close>

theorem grid_jitter:
  assumes "\<bar>now2 - now1\<bar> < 30000"
    and "\<forall>e \<in> set history. \<forall>t. getTime (timestamp e) = Some t \<longrightarrow>
           \<bar>now2 - now1\<bar> + centreDistance now1 t < 30000"
  shows "gridStatus now2 history = gridStatus now1 history"
  unfolding gridStatus_def using assms(2) by (rule foldl_fillEntry_jitter)

theorem grid_jitter_witness:
  "gridStatus 86429999 [\<lparr>timestamp = TsTime 86100000, status = Some ''healthy''\<rparr>]
   = gridStatus 86400000 [\<lparr>timestamp = TsTime 86100000, status = Some ''healthy''\<rparr>]"
proof -
  have "centreDistance 86400000 86100000 = 0"
    by (simp add: centreDistance_def minutesInDay_def)
  then show ?thesis
    using grid_jitter [of 86429999 86400000 "[\<lparr>timestamp = TsTime 86100000, status = Some ''healthy''\<rparr>]"]
    by simp
qed

text \<open>
  C1 as stated fails: a sample 30 seconds after the start of the window sits on a rounding
  boundary, and one millisecond more in \<open>now\<close> moves it from slot 1 to slot 0.
\<close>

theorem grid_jitter_counterexample:
  "\<bar>(86400001::int) - 86400000\<bar> < 30000
   \<and> gridStatus 86400000 [\<lparr>timestamp = TsTime 30000, status = Some ''healthy''\<rparr>]
       \<noteq> gridStatus 86400001 [\<lparr>timestamp = TsTime 30000, status = Some ''healthy''\<rparr>]"
proof -
  let ?e = "\<lparr>timestamp = TsTime 30000, status = Some ''healthy''\<rparr>"
  have a: "minutesFromStart 86400000 30000 = 1"
    by (simp add: minutesFromStart_eq)
  have b: "minutesFromStart 86400001 30000 = 0"
    by (simp add: minutesFromStart_eq)
  have g1: "gridStatus 86400000 [?e] ! 1 = Some ''healthy''"
    by (simp add: gridStatus_def fillEntry_valid [where t = 30000] a initGrid_def minutesInDay_def)
  have g2: "gridStatus 86400001 [?e] ! 1 = Some ''unknown''"
    by (simp add: gridStatus_def fillEntry_valid [where t = 30000] b initGrid_def minutesInDay_def)
  have "gridStatus 86400000 [?e] \<noteq> gridStatus 86400001 [?e]"
  proof
    assume "gridStatus 86400000 [?e] = gridStatus 86400001 [?e]"
    with g1 g2 show False by simp
  qed
  then show ?thesis by simp
qed

section \<open>Storage and classifier: lemmas\<close>

lemma filterElems_map_EObj: "filterElems p (map EObj h) = Some (filter p h)"
  by (induction h) simp_all

lemma filterElems_ENull: "ENull \<in> set es \<Longrightarrow> filterElems p es = None"
  by (induction p es rule: filterElems.induct) (auto split: option.splits)

lemma filterElems_Some:
  "filterElems p es = Some h \<Longrightarrow> e \<in> set h \<Longrightarrow> p e \<and> EObj e \<in> set es"
proof (induction p es arbitrary: h rule: filterElems.induct)
  case (1 p)
  then show ?case by simp
next
  case (2 p es)
  then show ?case by simp
next
  case (3 p x es)
  then show ?case
    by (auto split: option.splits if_splits)
qed

lemma loadDomainHistory_member:
  assumes "e \<in> set (loadDomainHistory now domain fs)"
  shows "valid_recent now e"
  using assms
  by (auto simp: loadDomainHistory_def split: option.splits dest: filterElems_Some [OF sym])

lemma persistence_loadDomainHistory_member:
  assumes "e \<in> set (persistence_loadDomainHistory now domain fs)"
  shows "persistence_recent now e"
  using assms
  by (auto simp: persistence_loadDomainHistory_def split: option.splits
      dest: filterElems_Some [OF sym])

lemma valid_recent_iff:
  "valid_recent now e \<longleftrightarrow>
     truthy_ts (timestamp e) \<and> truthy_status (entry.status e) \<and> recent now e"
  by (simp add: valid_recent_def recent_def retentionMillis_def)

lemma persistence_recent_eq: "persistence_recent now = recent now"
  by (rule ext) (simp add: persistence_recent_def recent_def retentionMillis_def MAX_AGE_DAYS_def)

lemma recent_mono: "now1 \<le> now2 \<Longrightarrow> recent now2 e \<Longrightarrow> recent now1 e"
  by (auto simp: recent_def date_ge_def split: option.splits)

lemma includesStr_iff: "includesStr s sub \<longleftrightarrow> (\<exists>pre post. s = pre @ sub @ post)"
proof (induction s)
  case Nil
  then show ?case by auto
next
  case (Cons c cs)
  show ?case
  proof
    assume "includesStr (c # cs) sub"
    then consider "take (length sub) (c # cs) = sub" | "includesStr cs sub"
      by auto
    then show "\<exists>pre post. c # cs = pre @ sub @ post"
    proof cases
      case 1
      then have "c # cs = [] @ sub @ drop (length sub) (c # cs)"
        by (metis append_Nil append_take_drop_id)
      then show ?thesis by blast
    next
      case 2
      with Cons obtain pre post where "cs = pre @ sub @ post" by blast
      then have "c # cs = (c # pre) @ sub @ post" by simp
      then show ?thesis by blast
    qed
  next
    assume "\<exists>pre post. c # cs = pre @ sub @ post"
    then obtain pre post where eq: "c # cs = pre @ sub @ post" by blast
    show "includesStr (c # cs) sub"
    proof (cases pre)
      case Nil
      with eq have "take (length sub) (c # cs) = sub" by simp
      then show ?thesis by simp
    next
      case (Cons a pre')
      with eq have "cs = pre' @ sub @ post" by simp
      with Cons.IH show ?thesis by auto
    qed
  qed
qed

lemma healthState_addToHistory [simp]:
  "healthState (addToHistory now domain st w) = healthState w"
  by (simp add: addToHistory_def Let_def)

lemma checkDomain_catch_state:
  "healthState (world_after (checkDomain_catch snk startTime now domain msg state w sent0)) domain
     = Some (unhealthyUpdate startTime now msg state)"
  by (simp add: checkDomain_catch_def Let_def)

section \<open>Classifier: claims\<close>

text \<open>
  C3. For a probe outcome with an HTTP status, the verdict is the error "HTTP <status>" exactly
  when the status is below 200 or above 399. A status from 200 to 399, redirects included,
  passes the status rule, and with a latency below the threshold and a body without the PHP
  error marker no error is thrown: the check is healthy. \<^verbatim>\<open>checkDomain\<close> records the verdict in
  the state: unhealthy with that reason in the first case, healthy in the second (on the tenth
  success in a row, if the sink accepts the recovery message). The checks are those of the
  current \<^verbatim>\<open>index.js\<close>; an older copy of the file in the repository tests
  \<^verbatim>\<open>response.statusCode !== 200\<close> and a fixed 5000 ms instead.
\<close>

theorem classifier_status_range:
  "(checkResponse cfg (Response sc body) rt = Some (''HTTP '' @ toString sc)
      \<longleftrightarrow> sc < 200 \<or> sc > 399)
   \<and> (200 \<le> sc \<and> sc \<le> 399 \<and> rt < timeoutSeconds cfg * 1000
        \<and> \<not> includesStr body ''A PHP Error was encountered''
      \<longrightarrow> checkResponse cfg (Response sc body) rt = None)
   \<and> (healthState w d = Some s \<and> (sc < 200 \<or> sc > 399) \<longrightarrow>
        (\<exists>s'. healthState (world_after (checkDomain cfg snk startTime now (Response sc body) d w)) d
                = Some s'
              \<and> status s' = ''unhealthy'' \<and> lastError s' = Some (''HTTP '' @ toString sc)))
   \<and> (healthState w d = Some s \<and> 200 \<le> sc \<and> sc \<le> 399
        \<and> now - startTime < timeoutSeconds cfg * 1000
        \<and> \<not> includesStr body ''A PHP Error was encountered''
        \<and> (consecutiveSuccesses s + 1 = 10 \<longrightarrow> snk (Recovered d) = None) \<longrightarrow>
        (\<exists>s'. healthState (world_after (checkDomain cfg snk startTime now (Response sc body) d w)) d
                = Some s'
              \<and> status s' = ''healthy'' \<and> lastError s' = None))"
proof -
  have verdict: "checkResponse cfg (Response sc body) rt = Some (''HTTP '' @ toString sc)
      \<longleftrightarrow> sc < 200 \<or> sc > 399"
    by (auto simp: checkResponse_def)
  have pass: "checkResponse cfg (Response sc body) rt = None"
    if "200 \<le> sc \<and> sc \<le> 399 \<and> rt < timeoutSeconds cfg * 1000
        \<and> \<not> includesStr body ''A PHP Error was encountered''" for rt
    using that by (simp add: checkResponse_def)
  have bad: "\<exists>s'. healthState (world_after (checkDomain cfg snk startTime now (Response sc body) d w)) d
                = Some s'
              \<and> status s' = ''unhealthy'' \<and> lastError s' = Some (''HTTP '' @ toString sc)"
    if "healthState w d = Some s \<and> (sc < 200 \<or> sc > 399)"
  proof -
    from that have "checkResponse cfg (Response sc body) (now - startTime)
        = Some (''HTTP '' @ toString sc)"
      by (auto simp: checkResponse_def)
    with that show ?thesis
      by (simp add: checkDomain_def checkDomain_catch_state unhealthyUpdate_def)
  qed
  have good: "\<exists>s'. healthState (world_after (checkDomain cfg snk startTime now (Response sc body) d w)) d
                = Some s'
              \<and> status s' = ''healthy'' \<and> lastError s' = None"
    if h: "healthState w d = Some s \<and> 200 \<le> sc \<and> sc \<le> 399
        \<and> now - startTime < timeoutSeconds cfg * 1000
        \<and> \<not> includesStr body ''A PHP Error was encountered''
        \<and> (consecutiveSuccesses s + 1 = 10 \<longrightarrow> snk (Recovered d) = None)"
  proof -
    from h have "checkResponse cfg (Response sc body) (now - startTime) = None"
      using pass by blast
    with h show ?thesis
      by (simp add: checkDomain_def Let_def healthyUpdate_def)
  qed
  from verdict pass bad good show ?thesis by blast
qed


theorem classifier_status_range_witness:
  "checkResponse \<lparr>timeoutSeconds = 10\<rparr> (Response 404 ''ok'') 50 = Some ''HTTP 404''
   \<and> checkResponse \<lparr>timeoutSeconds = 10\<rparr> (Response 301 ''ok'') 50 = None
   \<and> (\<exists>s'. healthState (world_after (checkDomain \<lparr>timeoutSeconds = 10\<rparr> (\<lambda>n. None) 1000 1050
                 (Response 500 ''ok'') ''d''
                 (initialWorld [''d''] \<lparr>files = Map.empty, writable = True\<rparr>))) ''d'' = Some s'
          \<and> status s' = ''unhealthy'' \<and> lastError s' = Some ''HTTP 500'')
   \<and> (\<exists>s'. healthState (world_after (checkDomain \<lparr>timeoutSeconds = 10\<rparr> (\<lambda>n. None) 1000 1050
                 (Response 302 ''ok'') ''d''
                 (initialWorld [''d''] \<lparr>files = Map.empty, writable = True\<rparr>))) ''d'' = Some s'
          \<and> status s' = ''healthy'' \<and> lastError s' = None)"
proof -
  let ?cfg = "\<lparr>timeoutSeconds = 10\<rparr>"
  let ?w = "initialWorld [''d''] \<lparr>files = Map.empty, writable = True\<rparr>"
  have st: "healthState ?w ''d'' = Some initialHealth"
    by (simp add: initialWorld_def)
  have ok: "\<not> includesStr ''ok'' ''A PHP Error was encountered''"
    by simp
  have d404: "toString 404 = ''404''" and d500: "toString 500 = ''500''"
    by (simp_all add: toString_def digits.simps digitChar_def)
  have init: "consecutiveSuccesses initialHealth = 0"
    by (simp add: initialHealth_def)
  show ?thesis
    using classifier_status_range [where cfg = ?cfg and sc = 404 and body = "''ok''" and rt = 50]
      classifier_status_range [where cfg = ?cfg and sc = 301 and body = "''ok''" and rt = 50]
      classifier_status_range [where cfg = ?cfg and sc = 500 and body = "''ok''" and w = ?w
        and d = "''d''" and s = initialHealth and snk = "\<lambda>n. None" and startTime = 1000
        and now = 1050]
      classifier_status_range [where cfg = ?cfg and sc = 302 and body = "''ok''" and w = ?w
        and d = "''d''" and s = initialHealth and snk = "\<lambda>n. None" and startTime = 1000
        and now = 1050]
      st ok d404 d500 init
    by simp
qed

section \<open>Retention store: claims\<close>

text \<open>
  C8. A load gives the empty history, and raises nothing, when the record of the domain is
  missing, cannot be read, does not parse, parses to something that is no array or holds a
  \<^verbatim>\<open>null\<close> element. When the record is an array of entries, the age filter
  (timestamp at or after now minus 30 days) is applied to it before it is returned, and every
  entry of any loaded history passes that filter. This holds for \<^verbatim>\<open>loadDomainHistory\<close> of
  \<^verbatim>\<open>index.js\<close>, which also drops entries without timestamp or status, and of
  \<^verbatim>\<open>persistence.js\<close>.
\<close>

theorem load_degrades_to_empty:
  "(files fs (getDomainFileName domain) = None \<longrightarrow> loadDomainHistory now domain fs = [])
   \<and> (files fs (getDomainFileName domain) = Some Unreadable \<longrightarrow> loadDomainHistory now domain fs = [])
   \<and> (files fs (getDomainFileName domain) = Some Unparseable \<longrightarrow> loadDomainHistory now domain fs = [])
   \<and> (files fs (getDomainFileName domain) = Some NotArray \<longrightarrow> loadDomainHistory now domain fs = [])
   \<and> (files fs (getDomainFileName domain) = Some (Entries es) \<and> ENull \<in> set es \<longrightarrow>
        loadDomainHistory now domain fs = [])
   \<and> (files fs (getDomainFileName domain) = Some (Entries (map EObj h)) \<longrightarrow>
        loadDomainHistory now domain fs
          = filter (\<lambda>e. truthy_ts (timestamp e) \<and> truthy_status (entry.status e))
              (filter (recent now) h))
   \<and> (\<forall>e \<in> set (loadDomainHistory now domain fs). recent now e)
   \<and> (files fs (getDomainFilePath domain) = None \<longrightarrow> persistence_loadDomainHistory now domain fs = [])
   \<and> (files fs (getDomainFilePath domain) = Some Unreadable \<longrightarrow>
        persistence_loadDomainHistory now domain fs = [])
   \<and> (files fs (getDomainFilePath domain) = Some Unparseable \<longrightarrow>
        persistence_loadDomainHistory now domain fs = [])
   \<and> (files fs (getDomainFilePath domain) = Some NotArray \<longrightarrow>
        persistence_loadDomainHistory now domain fs = [])
   \<and> (files fs (getDomainFilePath domain) = Some (Entries es) \<and> ENull \<in> set es \<longrightarrow>
        persistence_loadDomainHistory now domain fs = [])
   \<and> (files fs (getDomainFilePath domain) = Some (Entries (map EObj h)) \<longrightarrow>
        persistence_loadDomainHistory now domain fs = filter (recent now) h)
   \<and> (\<forall>e \<in> set (persistence_loadDomainHistory now domain fs). recent now e)"
proof -
  have i1: "files fs (getDomainFileName domain) = None \<longrightarrow> loadDomainHistory now domain fs = []"
    by (simp add: loadDomainHistory_def)
  have i2: "files fs (getDomainFileName domain) = Some Unreadable \<longrightarrow>
      loadDomainHistory now domain fs = []"
    by (simp add: loadDomainHistory_def)
  have i3: "files fs (getDomainFileName domain) = Some Unparseable \<longrightarrow>
      loadDomainHistory now domain fs = []"
    by (simp add: loadDomainHistory_def)
  have i4: "files fs (getDomainFileName domain) = Some NotArray \<longrightarrow>
      loadDomainHistory now domain fs = []"
    by (simp add: loadDomainHistory_def)
  have i5: "files fs (getDomainFileName domain) = Some (Entries es) \<and> ENull \<in> set es \<longrightarrow>
      loadDomainHistory now domain fs = []"
    by (simp add: loadDomainHistory_def filterElems_ENull)
  have "filter (valid_recent now) h
      = filter (\<lambda>e. truthy_ts (timestamp e) \<and> truthy_status (entry.status e))
          (filter (recent now) h)"
    by (auto simp: valid_recent_iff intro: filter_cong)
  then have i6: "files fs (getDomainFileName domain) = Some (Entries (map EObj h)) \<longrightarrow>
      loadDomainHistory now domain fs
        = filter (\<lambda>e. truthy_ts (timestamp e) \<and> truthy_status (entry.status e))
            (filter (recent now) h)"
    by (simp add: loadDomainHistory_def filterElems_map_EObj)
  have i7: "\<forall>e \<in> set (loadDomainHistory now domain fs). recent now e"
    using loadDomainHistory_member valid_recent_iff by blast
  have p1: "files fs (getDomainFilePath domain) = None \<longrightarrow>
      persistence_loadDomainHistory now domain fs = []"
    by (simp add: persistence_loadDomainHistory_def)
  have p2: "files fs (getDomainFilePath domain) = Some Unreadable \<longrightarrow>
      persistence_loadDomainHistory now domain fs = []"
    by (simp add: persistence_loadDomainHistory_def)
  have p3: "files fs (getDomainFilePath domain) = Some Unparseable \<longrightarrow>
      persistence_loadDomainHistory now domain fs = []"
    by (simp add: persistence_loadDomainHistory_def)
  have p4: "files fs (getDomainFilePath domain) = Some NotArray \<longrightarrow>
      persistence_loadDomainHistory now domain fs = []"
    by (simp add: persistence_loadDomainHistory_def)
  have p5: "files fs (getDomainFilePath domain) = Some (Entries es) \<and> ENull \<in> set es \<longrightarrow>
      persistence_loadDomainHistory now domain fs = []"
    by (simp add: persistence_loadDomainHistory_def filterElems_ENull)
  have "filter (persistence_recent now) h = filter (recent now) h"
    by (simp add: persistence_recent_eq)
  then have p6: "files fs (getDomainFilePath domain) = Some (Entries (map EObj h)) \<longrightarrow>
      persistence_loadDomainHistory now domain fs = filter (recent now) h"
    by (simp add: persistence_loadDomainHistory_def filterElems_map_EObj)
  have p7: "\<forall>e \<in> set (persistence_loadDomainHistory now domain fs). recent now e"
    using persistence_loadDomainHistory_member [of _ now domain fs]
    by (simp add: persistence_recent_eq)
  from i1 i2 i3 i4 i5 i6 i7 p1 p2 p3 p4 p5 p6 p7 show ?thesis
    by (intro conjI)
qed

theorem load_degrades_to_empty_witness:
  "map (\<lambda>d. loadDomainHistory 3000000000 d
     \<lparr>files = [''a.json'' \<mapsto> Unparseable, ''b.json'' \<mapsto> NotArray, ''c.json'' \<mapsto> Unreadable,
               ''d.json'' \<mapsto> Entries [EObj \<lparr>timestamp = TsTime 2999999000, status = Some ''healthy''\<rparr>, ENull],
               ''e.json'' \<mapsto> Entries
                  [EObj \<lparr>timestamp = TsTime 1000, status = Some ''unhealthy''\<rparr>,
                   EObj \<lparr>timestamp = TsTime 2999999000, status = Some ''healthy''\<rparr>]],
       writable = True\<rparr>) [''f'', ''a'', ''b'', ''c'', ''d'', ''e'']
     = [[], [], [], [], [], [\<lparr>timestamp = TsTime 2999999000, status = Some ''healthy''\<rparr>]]
   \<and> map (\<lambda>d. persistence_loadDomainHistory 3000000000 d
     \<lparr>files = [''a.json'' \<mapsto> Unparseable, ''b.json'' \<mapsto> NotArray, ''c.json'' \<mapsto> Unreadable,
               ''d.json'' \<mapsto> Entries [EObj \<lparr>timestamp = TsTime 2999999000, status = Some ''healthy''\<rparr>, ENull],
               ''e.json'' \<mapsto> Entries
                  [EObj \<lparr>timestamp = TsTime 1000, status = Some ''unhealthy''\<rparr>,
                   EObj \<lparr>timestamp = TsTime 2999999000, status = Some ''healthy''\<rparr>]],
       writable = True\<rparr>) [''f'', ''a'', ''b'', ''c'', ''d'', ''e'']
     = [[], [], [], [], [], [\<lparr>timestamp = TsTime 2999999000, status = Some ''healthy''\<rparr>]]"
proof -
  let ?fresh = "\<lparr>timestamp = TsTime 2999999000, status = Some ''healthy''\<rparr>"
  let ?old = "\<lparr>timestamp = TsTime 1000, status = Some ''unhealthy''\<rparr>"
  let ?fs = "\<lparr>files = [''a.json'' \<mapsto> Unparseable, ''b.json'' \<mapsto> NotArray, ''c.json'' \<mapsto> Unreadable,
               ''d.json'' \<mapsto> Entries [EObj ?fresh, ENull],
               ''e.json'' \<mapsto> Entries [EObj ?old, EObj ?fresh]],
       writable = True\<rparr>"
  have names: "getDomainFileName ''a'' = ''a.json''" "getDomainFileName ''b'' = ''b.json''"
    "getDomainFileName ''c'' = ''c.json''" "getDomainFileName ''d'' = ''d.json''"
    "getDomainFileName ''e'' = ''e.json''" "getDomainFileName ''f'' = ''f.json''"
    by (simp_all add: getDomainFileName_def safeChar_def)
  have paths: "getDomainFilePath ''a'' = ''a.json''" "getDomainFilePath ''b'' = ''b.json''"
    "getDomainFilePath ''c'' = ''c.json''" "getDomainFilePath ''d'' = ''d.json''"
    "getDomainFilePath ''e'' = ''e.json''" "getDomainFilePath ''f'' = ''f.json''"
    by (simp_all add: getDomainFilePath_def safeChar_def)
  have ages: "recent 3000000000 ?fresh" "\<not> recent 3000000000 ?old"
    by (simp_all add: recent_def date_ge_def retentionMillis_def)
  have look:
    "files ?fs ''f.json'' = None" "files ?fs ''a.json'' = Some Unparseable"
    "files ?fs ''b.json'' = Some NotArray" "files ?fs ''c.json'' = Some Unreadable"
    "files ?fs ''d.json'' = Some (Entries [EObj ?fresh, ENull])"
    "files ?fs ''e.json'' = Some (Entries (map EObj [?old, ?fresh]))"
    by simp_all
  have null: "ENull \<in> set [EObj ?fresh, ENull]"
    by simp
  have kept: "filter (\<lambda>e. truthy_ts (timestamp e) \<and> truthy_status (entry.status e))
      (filter (recent 3000000000) [?old, ?fresh]) = [?fresh]"
    "filter (recent 3000000000) [?old, ?fresh] = [?fresh]"
    using ages by simp_all
  have f: "loadDomainHistory 3000000000 ''f'' ?fs = []"
    "persistence_loadDomainHistory 3000000000 ''f'' ?fs = []"
    using load_degrades_to_empty [of ?fs "''f''" 3000000000] look(1)
    by (simp_all only: names paths)
  have a: "loadDomainHistory 3000000000 ''a'' ?fs = []"
    "persistence_loadDomainHistory 3000000000 ''a'' ?fs = []"
    using load_degrades_to_empty [of ?fs "''a''" 3000000000] look(2)
    by (simp_all only: names paths)
  have b: "loadDomainHistory 3000000000 ''b'' ?fs = []"
    "persistence_loadDomainHistory 3000000000 ''b'' ?fs = []"
    using load_degrades_to_empty [of ?fs "''b''" 3000000000] look(3)
    by (simp_all only: names paths)
  have c: "loadDomainHistory 3000000000 ''c'' ?fs = []"
    "persistence_loadDomainHistory 3000000000 ''c'' ?fs = []"
    using load_degrades_to_empty [of ?fs "''c''" 3000000000] look(4)
    by (simp_all only: names paths)
  have d: "loadDomainHistory 3000000000 ''d'' ?fs = []"
    "persistence_loadDomainHistory 3000000000 ''d'' ?fs = []"
    using load_degrades_to_empty [of ?fs "''d''" 3000000000 "[EObj ?fresh, ENull]"] look(5) null
    by (simp_all only: names paths)
  have e: "loadDomainHistory 3000000000 ''e'' ?fs = [?fresh]"
    "persistence_loadDomainHistory 3000000000 ''e'' ?fs = [?fresh]"
    using load_degrades_to_empty [of ?fs "''e''" 3000000000 _ "[?old, ?fresh]"] look(6) kept
    by (simp_all only: names paths)
  show ?thesis
    by (simp only: list.map f a b c d e simp_thms)
qed

text \<open>
  C10. Every entry of a history loaded by \<^verbatim>\<open>loadDomainHistory\<close> of \<^verbatim>\<open>index.js\<close> has a truthy
  timestamp and a truthy status: an entry whose timestamp or status is absent or falsy is
  not in the loaded history.
\<close>

theorem load_drops_malformed:
  "(\<forall>e \<in> set (loadDomainHistory now domain fs).
      truthy_ts (timestamp e) \<and> truthy_status (entry.status e))
   \<and> (\<not> truthy_ts (timestamp e) \<or> \<not> truthy_status (entry.status e) \<longrightarrow>
        e \<notin> set (loadDomainHistory now domain fs))"
  using loadDomainHistory_member valid_recent_iff by blast

theorem load_drops_malformed_witness:
  "loadDomainHistory 3000000000 ''e''
     \<lparr>files = [''e.json'' \<mapsto> Entries
                 [EObj \<lparr>timestamp = TsMissing, status = Some ''healthy''\<rparr>,
                  EObj \<lparr>timestamp = TsTime 2999999000, status = Some ''healthy''\<rparr>,
                  EObj \<lparr>timestamp = TsTime 2999999500, status = None\<rparr>]],
       writable = True\<rparr>
     = [\<lparr>timestamp = TsTime 2999999000, status = Some ''healthy''\<rparr>]
   \<and> \<lparr>timestamp = TsMissing, status = Some ''healthy''\<rparr> \<notin> set (loadDomainHistory 3000000000 ''e''
     \<lparr>files = [''e.json'' \<mapsto> Entries
                 [EObj \<lparr>timestamp = TsMissing, status = Some ''healthy''\<rparr>,
                  EObj \<lparr>timestamp = TsTime 2999999000, status = Some ''healthy''\<rparr>,
                  EObj \<lparr>timestamp = TsTime 2999999500, status = None\<rparr>]],
       writable = True\<rparr>)
   \<and> \<lparr>timestamp = TsTime 2999999500, status = None\<rparr> \<notin> set (loadDomainHistory 3000000000 ''e''
     \<lparr>files = [''e.json'' \<mapsto> Entries
                 [EObj \<lparr>timestamp = TsMissing, status = Some ''healthy''\<rparr>,
                  EObj \<lparr>timestamp = TsTime 2999999000, status = Some ''healthy''\<rparr>,
                  EObj \<lparr>timestamp = TsTime 2999999500, status = None\<rparr>]],
       writable = True\<rparr>)"
proof -
  let ?fs = "\<lparr>files = [''e.json'' \<mapsto> Entries
                 [EObj \<lparr>timestamp = TsMissing, status = Some ''healthy''\<rparr>,
                  EObj \<lparr>timestamp = TsTime 2999999000, status = Some ''healthy''\<rparr>,
                  EObj \<lparr>timestamp = TsTime 2999999500, status = None\<rparr>]],
       writable = True\<rparr>"
  have name: "getDomainFileName ''e'' = ''e.json''"
    by (simp add: getDomainFileName_def safeChar_def)
  have loaded: "loadDomainHistory 3000000000 ''e'' ?fs
      = [\<lparr>timestamp = TsTime 2999999000, status = Some ''healthy''\<rparr>]"
    by (simp add: loadDomainHistory_def name valid_recent_def date_ge_def)
  show ?thesis
    using load_drops_malformed [of 3000000000 "''e''" ?fs
        "\<lparr>timestamp = TsMissing, status = Some ''healthy''\<rparr>"]
      load_drops_malformed [of 3000000000 "''e''" ?fs
        "\<lparr>timestamp = TsTime 2999999500, status = None\<rparr>"]
      loaded
    by simp
qed

lemma files_saveDomainHistory:
  "writable fs \<Longrightarrow>
     files (saveDomainHistory domain history fs) (getDomainFileName domain)
       = Some (Entries (map EObj history))"
  by (simp add: saveDomainHistory_def)

text \<open>
  C7, as amended. When the write succeeds, saving a history and then loading it for the same
  domain gives the original history filtered by the filter of the load: in \<^verbatim>\<open>index.js\<close> the
  entries with timestamp and status that are at most 30 days old, which for a history whose
  entries all have a timestamp and a status is the 30-day age filter; in \<^verbatim>\<open>persistence.js\<close>
  the 30-day age filter at the time of the load, when the load is not earlier than the save.
\<close>

theorem save_load_roundtrip:
  "(writable fs \<longrightarrow>
      loadDomainHistory now domain (saveDomainHistory domain history fs)
        = filter (valid_recent now) history)
   \<and> (writable fs \<and> (\<forall>e \<in> set history. truthy_ts (timestamp e) \<and> truthy_status (entry.status e))
        \<longrightarrow> loadDomainHistory now domain (saveDomainHistory domain history fs)
              = filter (recent now) history)
   \<and> (writable fs \<and> saved \<le> now \<longrightarrow>
        persistence_loadDomainHistory now domain
            (persistence_saveDomainHistory saved domain history fs)
          = filter (persistence_recent now) history)"
proof -
  have a: "loadDomainHistory now domain (saveDomainHistory domain history fs)
        = filter (valid_recent now) history" if "writable fs"
    using that by (simp add: loadDomainHistory_def files_saveDomainHistory filterElems_map_EObj)
  have b: "filter (valid_recent now) history = filter (recent now) history"
    if "\<forall>e \<in> set history. truthy_ts (timestamp e) \<and> truthy_status (entry.status e)"
    using that by (auto simp: valid_recent_iff intro: filter_cong)
  have c: "persistence_loadDomainHistory now domain
            (persistence_saveDomainHistory saved domain history fs)
          = filter (persistence_recent now) history" if w: "writable fs" and le: "saved \<le> now"
  proof -
    have "filter (recent now) (filter (recent saved) history) = filter (recent now) history"
      using le by (auto simp: filter_filter intro: filter_cong dest: recent_mono)
    with w show ?thesis
      by (simp add: persistence_loadDomainHistory_def persistence_saveDomainHistory_def
          filterElems_map_EObj persistence_recent_eq)
  qed
  from a b c show ?thesis by simp
qed

theorem save_load_roundtrip_witness:
  "loadDomainHistory 3000000000 ''https://example.com''
     (saveDomainHistory ''https://example.com''
        [\<lparr>timestamp = TsTime 1000, status = Some ''unhealthy''\<rparr>,
         \<lparr>timestamp = TsTime 2999999000, status = Some ''healthy''\<rparr>]
        \<lparr>files = Map.empty, writable = True\<rparr>)
     = [\<lparr>timestamp = TsTime 2999999000, status = Some ''healthy''\<rparr>]
   \<and> persistence_loadDomainHistory 3000000000 ''https://example.com''
     (persistence_saveDomainHistory 2999999900 ''https://example.com''
        [\<lparr>timestamp = TsTime 1000, status = Some ''unhealthy''\<rparr>,
         \<lparr>timestamp = TsTime 2999999000, status = Some ''healthy''\<rparr>]
        \<lparr>files = Map.empty, writable = True\<rparr>)
     = [\<lparr>timestamp = TsTime 2999999000, status = Some ''healthy''\<rparr>]"
proof -
  let ?h = "[\<lparr>timestamp = TsTime 1000, status = Some ''unhealthy''\<rparr>,
         \<lparr>timestamp = TsTime 2999999000, status = Some ''healthy''\<rparr>]"
  let ?fs = "\<lparr>files = Map.empty, writable = True\<rparr>"
  note rt = save_load_roundtrip [of ?fs 3000000000 "''https://example.com''" ?h 2999999900]
  have ages: "filter (recent 3000000000) ?h
      = [\<lparr>timestamp = TsTime 2999999000, status = Some ''healthy''\<rparr>]"
    by (simp add: recent_def date_ge_def retentionMillis_def)
  have w: "writable ?fs"
    by simp
  have wf: "\<forall>e \<in> set ?h. truthy_ts (timestamp e) \<and> truthy_status (entry.status e)"
    by simp
  have le: "(2999999900::int) \<le> 3000000000"
    by simp
  from rt w wf have "loadDomainHistory 3000000000 ''https://example.com''
      (saveDomainHistory ''https://example.com'' ?h ?fs) = filter (recent 3000000000) ?h"
    by blast
  moreover from rt w le have "persistence_loadDomainHistory 3000000000 ''https://example.com''
      (persistence_saveDomainHistory 2999999900 ''https://example.com'' ?h ?fs)
      = filter (persistence_recent 3000000000) ?h"
    by blast
  ultimately show ?thesis
    by (simp only: ages persistence_recent_eq simp_thms)
qed

text \<open>
  C7 as stated fails when the data directory cannot be written: the save is swallowed, and
  the load finds no record.
\<close>

theorem save_load_roundtrip_counterexample:
  "loadDomainHistory 3000000000 ''https://example.com''
     (saveDomainHistory ''https://example.com''
        [\<lparr>timestamp = TsTime 2999999000, status = Some ''healthy''\<rparr>]
        \<lparr>files = Map.empty, writable = False\<rparr>)
     \<noteq> filter (recent 3000000000) [\<lparr>timestamp = TsTime 2999999000, status = Some ''healthy''\<rparr>]"
  by (simp add: loadDomainHistory_def saveDomainHistory_def recent_def date_ge_def
      retentionMillis_def)

section \<open>Append and trim: lemmas and claims\<close>




lemma addToHistory_pushEntry:
  "addToHistory now domain st w =
     (let w1 = pushEntry domain \<lparr>timestamp = TsTime now, entry.status = Some st\<rparr> w;
          filteredHistory = filter (recent now)
            (case healthHistory w1 domain of None \<Rightarrow> [] | Some h \<Rightarrow> h)
      in w1\<lparr>healthHistory := (healthHistory w1)(domain \<mapsto> filteredHistory),
             disk := saveDomainHistory domain filteredHistory (disk w1)\<rparr>)"
  by (simp add: addToHistory_def pushEntry_def Let_def)


lemma disk_pushEntry [simp]: "disk (pushEntry domain e w) = disk w"
  by (simp add: pushEntry_def)





section \<open>State machine: lemmas\<close>

lemma sent_checkDomain_catch:
  "sent (checkDomain_catch snk startTime now domain msg state w sent0)
     = sent0 @ (if consecutiveErrors state = 0 then [Alert domain msg] else [])
             @ (if consecutiveErrors state = 4 then [Sustained domain msg] else [])"
  by (simp add: checkDomain_catch_def Let_def unhealthyUpdate_def)

lemma checkDomain_catch_other:
  "d' \<noteq> domain \<Longrightarrow>
     healthState (world_after (checkDomain_catch snk startTime now domain msg state w sent0)) d'
       = healthState w d'"
  by (simp add: checkDomain_catch_def Let_def)

lemma checkDomain_fail:
  assumes "healthState w d = Some s" and "checkResponse cfg p (now - startTime) = Some msg"
  shows "checkDomain cfg snk startTime now p d w = checkDomain_catch snk startTime now d msg s w []"
  using assms by (simp add: checkDomain_def)

lemma checkDomain_pass_quiet:
  assumes "healthState w d = Some s" and "checkResponse cfg p (now - startTime) = None"
    and "consecutiveSuccesses s + 1 \<noteq> 10"
  shows "healthState (world_after (checkDomain cfg snk startTime now p d w)) d
           = Some (healthyUpdate startTime now s)"
    and "sent (checkDomain cfg snk startTime now p d w) = []"
    and "rejected (checkDomain cfg snk startTime now p d w) = False"
  using assms by (simp_all add: checkDomain_def Let_def healthyUpdate_def)

lemma checkDomain_pass_tenth:
  assumes "healthState w d = Some s" and "checkResponse cfg p (now - startTime) = None"
    and "consecutiveSuccesses s + 1 = 10" and "snk (Recovered d) = None"
  shows "healthState (world_after (checkDomain cfg snk startTime now p d w)) d
           = Some (healthyUpdate startTime now s)"
    and "sent (checkDomain cfg snk startTime now p d w) = [Recovered d]"
    and "rejected (checkDomain cfg snk startTime now p d w) = False"
  using assms by (simp_all add: checkDomain_def Let_def healthyUpdate_def)

lemma checkDomain_pass_tenth_undelivered:
  assumes "healthState w d = Some s" and "checkResponse cfg p (now - startTime) = None"
    and "consecutiveSuccesses s + 1 = 10" and "snk (Recovered d) = Some err"
  shows "healthState (world_after (checkDomain cfg snk startTime now p d w)) d
           = Some (unhealthyUpdate startTime now err (healthyUpdate startTime now s))"
    and "sent (checkDomain cfg snk startTime now p d w) = [Recovered d, Alert d err]"
  using assms
  by (simp_all add: checkDomain_def Let_def checkDomain_catch_state sent_checkDomain_catch)
    (simp_all add: healthyUpdate_def)

lemma checkDomain_other:
  "d' \<noteq> d \<Longrightarrow> healthState (world_after (checkDomain cfg snk startTime now p d w)) d'
     = healthState w d'"
  by (simp add: checkDomain_def Let_def checkDomain_catch_other split: option.splits)

text \<open>The state of the checked domain after a call, and the messages of the call.\<close>

lemma checkDomain_step:
  assumes "healthState w d = Some s"
  shows "\<exists>s'. healthState (world_after (checkDomain cfg snk startTime now p d w)) d = Some s'
    \<and> (consecutiveErrors s' = 0 \<or> consecutiveSuccesses s' = 0)
    \<and> sent (checkDomain cfg snk startTime now p d w)
        = (if checkResponse cfg p (now - startTime) = None \<and> consecutiveSuccesses s + 1 = 10
           then [Recovered d] else [])
          @ (if consecutiveErrors s' = 1 then [Alert d (the (lastError s'))] else [])
          @ (if consecutiveErrors s' = 5 then [Sustained d (the (lastError s'))] else [])
    \<and> (snk (Recovered d) = None \<longrightarrow>
         (consecutiveSuccesses s' = 10
            \<longleftrightarrow> checkResponse cfg p (now - startTime) = None \<and> consecutiveSuccesses s + 1 = 10))"
proof (cases "checkResponse cfg p (now - startTime)")
  case (Some msg)
  let ?s' = "unhealthyUpdate startTime now msg s"
  have r: "checkDomain cfg snk startTime now p d w = checkDomain_catch snk startTime now d msg s w []"
    using assms Some by (rule checkDomain_fail)
  have "healthState (world_after (checkDomain cfg snk startTime now p d w)) d = Some ?s'"
    by (simp add: r checkDomain_catch_state)
  moreover have "consecutiveSuccesses ?s' = 0" "consecutiveErrors ?s' = consecutiveErrors s + 1"
    "lastError ?s' = Some msg"
    by (simp_all add: unhealthyUpdate_def)
  moreover have "sent (checkDomain cfg snk startTime now p d w)
      = (if consecutiveErrors s = 0 then [Alert d msg] else [])
        @ (if consecutiveErrors s = 4 then [Sustained d msg] else [])"
    by (simp add: r sent_checkDomain_catch)
  ultimately show ?thesis
    using Some by simp
next
  case None
  let ?s1 = "healthyUpdate startTime now s"
  have s1: "consecutiveErrors ?s1 = 0" "consecutiveSuccesses ?s1 = consecutiveSuccesses s + 1"
    by (simp_all add: healthyUpdate_def)
  show ?thesis
  proof (cases "consecutiveSuccesses s + 1 = 10")
    case False
    with assms None s1 show ?thesis
      by (simp add: checkDomain_pass_quiet)
  next
    case True
    show ?thesis
    proof (cases "snk (Recovered d)")
      case None': None
      with assms None True s1 show ?thesis
        by (simp add: checkDomain_pass_tenth)
    next
      case (Some err)
      let ?s' = "unhealthyUpdate startTime now err ?s1"
      have "consecutiveSuccesses ?s' = 0" "consecutiveErrors ?s' = 1" "lastError ?s' = Some err"
        by (simp_all add: unhealthyUpdate_def healthyUpdate_def)
      with assms None True Some show ?thesis
        by (simp add: checkDomain_pass_tenth_undelivered)
    qed
  qed
qed

lemma fail_streak:
  assumes "healthState w d = Some s"
    and "\<forall>c \<in> set cs. callDomain c = d \<and> \<not> passes cfg c"
  shows "length (filter isAlert (concat (map sent (runChecks cfg w cs))))
           = (if consecutiveErrors s = 0 \<and> cs \<noteq> [] then 1 else 0)
       \<and> length (filter isSustained (concat (map sent (runChecks cfg w cs))))
           = (if consecutiveErrors s < 5 \<and> 5 \<le> consecutiveErrors s + length cs then 1 else 0)
       \<and> filter isRecovered (concat (map sent (runChecks cfg w cs))) = []"
  using assms
proof (induction cs arbitrary: w s)
  case Nil
  show ?case by simp
next
  case (Cons c cs)
  obtain startTime now p snk where c: "c = Call d startTime now p snk"
    using Cons.prems(2) by (cases c) auto
  from Cons.prems(2) c obtain msg where msg: "checkResponse cfg p (now - startTime) = Some msg"
    by auto
  let ?r = "checkDomain cfg snk startTime now p d w"
  let ?s' = "unhealthyUpdate startTime now msg s"
  have r: "?r = checkDomain_catch snk startTime now d msg s w []"
    using Cons.prems(1) msg by (rule checkDomain_fail)
  have st: "healthState (world_after ?r) d = Some ?s'"
    by (simp add: r checkDomain_catch_state)
  have errs: "consecutiveErrors ?s' = consecutiveErrors s + 1"
    by (simp add: unhealthyUpdate_def)
  have snt: "sent ?r = (if consecutiveErrors s = 0 then [Alert d msg] else [])
        @ (if consecutiveErrors s = 4 then [Sustained d msg] else [])"
    by (simp add: r sent_checkDomain_catch)
  have rest: "\<forall>c \<in> set cs. callDomain c = d \<and> \<not> passes cfg c"
    using Cons.prems(2) by simp
  note ih = Cons.IH [OF st rest]
  have run: "runChecks cfg w (c # cs) = ?r # runChecks cfg (world_after ?r) cs"
    by (simp add: c Let_def)
  show ?case
    unfolding run using ih by (simp add: snt errs)
qed

lemma pass_streak:
  assumes "healthState w d = Some s"
    and "\<forall>c \<in> set cs. callDomain c = d \<and> passes cfg c \<and> callSink c (Recovered d) = None"
  shows "concat (map sent (runChecks cfg w cs))
           = (if consecutiveSuccesses s < 10 \<and> 10 \<le> consecutiveSuccesses s + length cs
              then [Recovered d] else [])"
  using assms
proof (induction cs arbitrary: w s)
  case Nil
  show ?case by simp
next
  case (Cons c cs)
  obtain startTime now p snk where c: "c = Call d startTime now p snk"
    using Cons.prems(2) by (cases c) auto
  from Cons.prems(2) c have ok: "checkResponse cfg p (now - startTime) = None"
    and snk: "snk (Recovered d) = None"
    by auto
  let ?r = "checkDomain cfg snk startTime now p d w"
  let ?s' = "healthyUpdate startTime now s"
  have st: "healthState (world_after ?r) d = Some ?s'"
    using Cons.prems(1) ok snk
    by (cases "consecutiveSuccesses s + 1 = 10")
      (simp_all add: checkDomain_pass_quiet checkDomain_pass_tenth)
  have succ: "consecutiveSuccesses ?s' = consecutiveSuccesses s + 1"
    by (simp add: healthyUpdate_def)
  have snt: "sent ?r = (if consecutiveSuccesses s + 1 = 10 then [Recovered d] else [])"
    using Cons.prems(1) ok snk
    by (cases "consecutiveSuccesses s + 1 = 10")
      (simp_all add: checkDomain_pass_quiet checkDomain_pass_tenth)
  have rest: "\<forall>c \<in> set cs. callDomain c = d \<and> passes cfg c \<and> callSink c (Recovered d) = None"
    using Cons.prems(2) by simp
  note ih = Cons.IH [OF st rest]
  have run: "runChecks cfg w (c # cs) = ?r # runChecks cfg (world_after ?r) cs"
    by (simp add: c Let_def)
  show ?case
    unfolding run using ih by (simp add: snt succ)
qed

lemma checkDomain_stepE:
  assumes "healthState w d = Some s"
  obtains s' where "healthState (world_after (checkDomain cfg snk startTime now p d w)) d = Some s'"
    and "consecutiveErrors s' = 0 \<or> consecutiveSuccesses s' = 0"
    and "sent (checkDomain cfg snk startTime now p d w)
        = (if checkResponse cfg p (now - startTime) = None \<and> consecutiveSuccesses s + 1 = 10
           then [Recovered d] else [])
          @ (if consecutiveErrors s' = 1 then [Alert d (the (lastError s'))] else [])
          @ (if consecutiveErrors s' = 5 then [Sustained d (the (lastError s'))] else [])"
    and "snk (Recovered d) = None \<longrightarrow>
         (consecutiveSuccesses s' = 10
            \<longleftrightarrow> checkResponse cfg p (now - startTime) = None \<and> consecutiveSuccesses s + 1 = 10)"
  using checkDomain_step [OF assms, of cfg snk startTime now p]
  by (elim exE conjE) (rule that; assumption)


lemma checkDomain_triggers:
  assumes known: "healthState w d = Some s"
  shows "let r = checkDomain cfg snk startTime now p d w
       in \<exists>s'. healthState (world_after r) d = Some s'
          \<and> ((\<exists>m. Alert d m \<in> set (sent r)) \<longleftrightarrow> consecutiveErrors s' = 1)
          \<and> ((\<exists>m. Sustained d m \<in> set (sent r)) \<longleftrightarrow> consecutiveErrors s' = 5)
          \<and> (Recovered d \<in> set (sent r)
                \<longleftrightarrow> checkResponse cfg p (now - startTime) = None \<and> consecutiveSuccesses s + 1 = 10)
          \<and> (snk (Recovered d) = None \<longrightarrow>
                (Recovered d \<in> set (sent r) \<longleftrightarrow> consecutiveSuccesses s' = 10))
          \<and> sent r
              = (if checkResponse cfg p (now - startTime) = None \<and> consecutiveSuccesses s + 1 = 10
                 then [Recovered d] else [])
                @ (if consecutiveErrors s' = 1 then [Alert d (the (lastError s'))] else [])
                @ (if consecutiveErrors s' = 5 then [Sustained d (the (lastError s'))] else [])"
proof (rule checkDomain_stepE [OF known, of cfg snk startTime now p])
  let ?r = "checkDomain cfg snk startTime now p d w"
  fix s'
  assume st: "healthState (world_after ?r) d = Some s'"
    and snt: "sent ?r
        = (if checkResponse cfg p (now - startTime) = None \<and> consecutiveSuccesses s + 1 = 10
           then [Recovered d] else [])
          @ (if consecutiveErrors s' = 1 then [Alert d (the (lastError s'))] else [])
          @ (if consecutiveErrors s' = 5 then [Sustained d (the (lastError s'))] else [])"
    and ten: "snk (Recovered d) = None \<longrightarrow>
         (consecutiveSuccesses s' = 10
            \<longleftrightarrow> checkResponse cfg p (now - startTime) = None \<and> consecutiveSuccesses s + 1 = 10)"
  have a: "(\<exists>m. Alert d m \<in> set (sent ?r)) \<longleftrightarrow> consecutiveErrors s' = 1"
    unfolding snt by auto
  have b: "(\<exists>m. Sustained d m \<in> set (sent ?r)) \<longleftrightarrow> consecutiveErrors s' = 5"
    unfolding snt by auto
  have c: "Recovered d \<in> set (sent ?r)
      \<longleftrightarrow> checkResponse cfg p (now - startTime) = None \<and> consecutiveSuccesses s + 1 = 10"
    unfolding snt by auto
  have e: "snk (Recovered d) = None \<longrightarrow>
      (Recovered d \<in> set (sent ?r) \<longleftrightarrow> consecutiveSuccesses s' = 10)"
    using c ten by blast
  show ?thesis
    unfolding Let_def
    by (rule exI [of _ s'])
      (rule conjI [OF st conjI [OF a conjI [OF b conjI [OF c conjI [OF e snt]]]]])
qed

section \<open>State machine: claims\<close>

text \<open>
  C4. One call of \<^verbatim>\<open>checkDomain\<close> on a domain with a state object hands an \<open>Alert\<close> to the
  sink exactly when it leaves \<^verbatim>\<open>consecutiveErrors\<close> at 1, a \<open>Sustained\<close> exactly when it leaves
  \<^verbatim>\<open>consecutiveErrors\<close> at 5, and a \<open>Recovered\<close> exactly when its success part raises
  \<^verbatim>\<open>consecutiveSuccesses\<close> to 10 (which is the value the call leaves when the sink accepts the
  message); nothing else is sent, whatever the counters. In an unbroken run of failing checks
  from a state without errors, one \<open>Alert\<close> is sent in all and one \<open>Sustained\<close> once the run
  reaches five checks; in an unbroken run of passing checks one \<open>Recovered\<close> is sent once the
  run reaches a count of ten, and no other message.
\<close>

theorem notification_triggers:
  "(healthState w d = Some s \<longrightarrow>
      (let r = checkDomain cfg snk startTime now p d w
       in \<exists>s'. healthState (world_after r) d = Some s'
          \<and> ((\<exists>m. Alert d m \<in> set (sent r)) \<longleftrightarrow> consecutiveErrors s' = 1)
          \<and> ((\<exists>m. Sustained d m \<in> set (sent r)) \<longleftrightarrow> consecutiveErrors s' = 5)
          \<and> (Recovered d \<in> set (sent r)
                \<longleftrightarrow> checkResponse cfg p (now - startTime) = None \<and> consecutiveSuccesses s + 1 = 10)
          \<and> (snk (Recovered d) = None \<longrightarrow>
                (Recovered d \<in> set (sent r) \<longleftrightarrow> consecutiveSuccesses s' = 10))
          \<and> sent r
              = (if checkResponse cfg p (now - startTime) = None \<and> consecutiveSuccesses s + 1 = 10
                 then [Recovered d] else [])
                @ (if consecutiveErrors s' = 1 then [Alert d (the (lastError s'))] else [])
                @ (if consecutiveErrors s' = 5 then [Sustained d (the (lastError s'))] else [])))
   \<and> (healthState w1 d = Some s1 \<and> (\<forall>c \<in> set cs1. callDomain c = d \<and> \<not> passes cfg c) \<longrightarrow>
        length (filter isAlert (concat (map sent (runChecks cfg w1 cs1))))
           = (if consecutiveErrors s1 = 0 \<and> cs1 \<noteq> [] then 1 else 0)
        \<and> length (filter isSustained (concat (map sent (runChecks cfg w1 cs1))))
           = (if consecutiveErrors s1 < 5 \<and> 5 \<le> consecutiveErrors s1 + length cs1 then 1 else 0)
        \<and> filter isRecovered (concat (map sent (runChecks cfg w1 cs1))) = [])
   \<and> (healthState w2 d = Some s2
        \<and> (\<forall>c \<in> set cs2. callDomain c = d \<and> passes cfg c \<and> callSink c (Recovered d) = None) \<longrightarrow>
        concat (map sent (runChecks cfg w2 cs2))
           = (if consecutiveSuccesses s2 < 10 \<and> 10 \<le> consecutiveSuccesses s2 + length cs2
              then [Recovered d] else []))"
proof -
  have step: "healthState w d = Some s \<longrightarrow>
      (let r = checkDomain cfg snk startTime now p d w
       in \<exists>s'. healthState (world_after r) d = Some s'
          \<and> ((\<exists>m. Alert d m \<in> set (sent r)) \<longleftrightarrow> consecutiveErrors s' = 1)
          \<and> ((\<exists>m. Sustained d m \<in> set (sent r)) \<longleftrightarrow> consecutiveErrors s' = 5)
          \<and> (Recovered d \<in> set (sent r)
                \<longleftrightarrow> checkResponse cfg p (now - startTime) = None \<and> consecutiveSuccesses s + 1 = 10)
          \<and> (snk (Recovered d) = None \<longrightarrow>
                (Recovered d \<in> set (sent r) \<longleftrightarrow> consecutiveSuccesses s' = 10))
          \<and> sent r
              = (if checkResponse cfg p (now - startTime) = None \<and> consecutiveSuccesses s + 1 = 10
                 then [Recovered d] else [])
                @ (if consecutiveErrors s' = 1 then [Alert d (the (lastError s'))] else [])
                @ (if consecutiveErrors s' = 5 then [Sustained d (the (lastError s'))] else []))"
    by (rule impI) (rule checkDomain_triggers)
  have failing: "healthState w1 d = Some s1 \<and> (\<forall>c \<in> set cs1. callDomain c = d \<and> \<not> passes cfg c) \<longrightarrow>
        length (filter isAlert (concat (map sent (runChecks cfg w1 cs1))))
           = (if consecutiveErrors s1 = 0 \<and> cs1 \<noteq> [] then 1 else 0)
        \<and> length (filter isSustained (concat (map sent (runChecks cfg w1 cs1))))
           = (if consecutiveErrors s1 < 5 \<and> 5 \<le> consecutiveErrors s1 + length cs1 then 1 else 0)
        \<and> filter isRecovered (concat (map sent (runChecks cfg w1 cs1))) = []"
  proof
    assume h: "healthState w1 d = Some s1 \<and> (\<forall>c \<in> set cs1. callDomain c = d \<and> \<not> passes cfg c)"
    from h have h1: "healthState w1 d = Some s1" ..
    from h have h2: "\<forall>c \<in> set cs1. callDomain c = d \<and> \<not> passes cfg c" ..
    from h1 h2 show "length (filter isAlert (concat (map sent (runChecks cfg w1 cs1))))
           = (if consecutiveErrors s1 = 0 \<and> cs1 \<noteq> [] then 1 else 0)
        \<and> length (filter isSustained (concat (map sent (runChecks cfg w1 cs1))))
           = (if consecutiveErrors s1 < 5 \<and> 5 \<le> consecutiveErrors s1 + length cs1 then 1 else 0)
        \<and> filter isRecovered (concat (map sent (runChecks cfg w1 cs1))) = []"
      by (rule fail_streak)
  qed
  have passing: "healthState w2 d = Some s2
        \<and> (\<forall>c \<in> set cs2. callDomain c = d \<and> passes cfg c \<and> callSink c (Recovered d) = None) \<longrightarrow>
        concat (map sent (runChecks cfg w2 cs2))
           = (if consecutiveSuccesses s2 < 10 \<and> 10 \<le> consecutiveSuccesses s2 + length cs2
              then [Recovered d] else [])"
  proof
    assume h: "healthState w2 d = Some s2
        \<and> (\<forall>c \<in> set cs2. callDomain c = d \<and> passes cfg c \<and> callSink c (Recovered d) = None)"
    from h have h1: "healthState w2 d = Some s2" ..
    from h have h2: "\<forall>c \<in> set cs2. callDomain c = d \<and> passes cfg c \<and> callSink c (Recovered d) = None" ..
    from h1 h2 show "concat (map sent (runChecks cfg w2 cs2))
           = (if consecutiveSuccesses s2 < 10 \<and> 10 \<le> consecutiveSuccesses s2 + length cs2
              then [Recovered d] else [])"
      by (rule pass_streak)
  qed
  show ?thesis
    by (rule conjI [OF step conjI [OF failing passing]])
qed

theorem notification_triggers_witness:
  "(\<exists>m. Alert ''d'' m \<in> set (sent (checkDomain \<lparr>timeoutSeconds = 10\<rparr> (\<lambda>n. None) 1000 1050
       (Response 500 ''ok'') ''d'' (initialWorld [''d''] \<lparr>files = Map.empty, writable = True\<rparr>))))
   \<and> length (filter isAlert (concat (map sent (runChecks \<lparr>timeoutSeconds = 10\<rparr>
        (initialWorld [''d''] \<lparr>files = Map.empty, writable = True\<rparr>)
        (replicate 7 (Call ''d'' 1000 1050 (Response 500 ''ok'') (\<lambda>n. None))))))) = 1
   \<and> length (filter isSustained (concat (map sent (runChecks \<lparr>timeoutSeconds = 10\<rparr>
        (initialWorld [''d''] \<lparr>files = Map.empty, writable = True\<rparr>)
        (replicate 7 (Call ''d'' 1000 1050 (Response 500 ''ok'') (\<lambda>n. None))))))) = 1
   \<and> concat (map sent (runChecks \<lparr>timeoutSeconds = 10\<rparr>
        (initialWorld [''d''] \<lparr>files = Map.empty, writable = True\<rparr>)
        (replicate 12 (Call ''d'' 1000 1050 (Response 200 ''ok'') (\<lambda>n. None)))))
       = [Recovered ''d'']"
proof -
  let ?cfg = "\<lparr>timeoutSeconds = 10\<rparr>"
  let ?w = "initialWorld [''d''] \<lparr>files = Map.empty, writable = True\<rparr>"
  let ?bad = "Call ''d'' 1000 1050 (Response 500 ''ok'') (\<lambda>n. None)"
  let ?good = "Call ''d'' 1000 1050 (Response 200 ''ok'') (\<lambda>n. None)"
  let ?r = "checkDomain ?cfg (\<lambda>n. None) 1000 1050 (Response 500 ''ok'') ''d'' ?w"
  note t = notification_triggers [where w = ?w and d = "''d''" and s = initialHealth
      and cfg = ?cfg and snk = "\<lambda>n. None" and startTime = 1000 and now = 1050
      and p = "Response 500 ''ok''" and ?w1.0 = ?w and ?s1.0 = initialHealth
      and ?cs1.0 = "replicate 7 ?bad" and ?w2.0 = ?w and ?s2.0 = initialHealth
      and ?cs2.0 = "replicate 12 ?good", unfolded Let_def]
  have st: "healthState ?w ''d'' = Some initialHealth"
    by (simp add: initialWorld_def)
  have zero: "consecutiveErrors initialHealth = 0" "consecutiveSuccesses initialHealth = 0"
    by (simp_all add: initialHealth_def)
  have bad: "\<forall>c \<in> set (replicate 7 ?bad). callDomain c = ''d'' \<and> \<not> passes ?cfg c"
    by (simp add: checkResponse_def)
  have good: "\<forall>c \<in> set (replicate 12 ?good).
      callDomain c = ''d'' \<and> passes ?cfg c \<and> callSink c (Recovered ''d'') = None"
    by (simp add: checkResponse_def)
  have verdict: "checkResponse ?cfg (Response 500 ''ok'') (1050 - 1000) = Some (''HTTP '' @ toString 500)"
    by (simp add: checkResponse_def)
  have after: "healthState (world_after ?r) ''d''
      = Some (unhealthyUpdate 1000 1050 (''HTTP '' @ toString 500) initialHealth)"
    by (simp add: checkDomain_fail [OF st verdict] checkDomain_catch_state)
  have one: "consecutiveErrors (unhealthyUpdate 1000 1050 (''HTTP '' @ toString 500) initialHealth) = 1"
    by (simp add: unhealthyUpdate_def initialHealth_def)
  note step = mp [OF conjunct1 [OF t] st]
  note failing = mp [OF conjunct1 [OF conjunct2 [OF t]] conjI [OF st bad]]
  note passing = mp [OF conjunct2 [OF conjunct2 [OF t]] conjI [OF st good]]
  from step obtain s' where s': "healthState (world_after ?r) ''d'' = Some s'"
    and alert: "(\<exists>m. Alert ''d'' m \<in> set (sent ?r)) \<longleftrightarrow> consecutiveErrors s' = 1"
    by (elim exE conjE)
  from s' after one have "consecutiveErrors s' = 1"
    by simp
  with alert have a: "\<exists>m. Alert ''d'' m \<in> set (sent ?r)"
    by simp
  from failing
  have b: "length (filter isAlert (concat (map sent (runChecks ?cfg ?w (replicate 7 ?bad))))) = 1"
    and c: "length (filter isSustained (concat (map sent (runChecks ?cfg ?w (replicate 7 ?bad))))) = 1"
    by (simp_all add: zero)
  from passing
  have e: "concat (map sent (runChecks ?cfg ?w (replicate 12 ?good))) = [Recovered ''d'']"
    by (simp add: zero)
  from a b c e show ?thesis
    by (intro conjI)
qed

lemma finalWorld_Cons:
  "finalWorld w (runChecks cfg w (c # cs))
     = finalWorld (world_after (runCall cfg w c)) (runChecks cfg (world_after (runCall cfg w c)) cs)"
  by (simp add: finalWorld_def Let_def)

lemma runChecks_append:
  "runChecks cfg w (xs @ ys)
     = runChecks cfg w xs @ runChecks cfg (finalWorld w (runChecks cfg w xs)) ys"
proof (induction xs arbitrary: w)
  case Nil
  show ?case by (simp add: finalWorld_def)
next
  case (Cons c xs)
  show ?case
    unfolding finalWorld_Cons by (simp add: Let_def Cons.IH)
qed

lemma runCall_exclusive:
  assumes "healthState w d = Some s"
    and "consecutiveErrors s = 0 \<or> consecutiveSuccesses s = 0"
  shows "\<exists>s'. healthState (world_after (runCall cfg w c)) d = Some s'
           \<and> (consecutiveErrors s' = 0 \<or> consecutiveSuccesses s' = 0)"
proof (cases c)
  case (Call domain startTime now p snk)
  show ?thesis
  proof (cases "domain = d")
    case True
    show ?thesis
    proof (rule checkDomain_stepE [OF assms(1), of cfg snk startTime now p])
      fix s'
      assume "healthState (world_after (checkDomain cfg snk startTime now p d w)) d = Some s'"
        and "consecutiveErrors s' = 0 \<or> consecutiveSuccesses s' = 0"
      then show ?thesis
        using Call True by auto
    qed
  next
    case False
    then have "healthState (world_after (runCall cfg w c)) d = healthState w d"
      using Call by (simp add: checkDomain_other)
    with assms show ?thesis by simp
  qed
qed

lemma runChecks_exclusive:
  assumes "healthState w d = Some s"
    and "consecutiveErrors s = 0 \<or> consecutiveSuccesses s = 0"
  shows "\<exists>s'. healthState (finalWorld w (runChecks cfg w cs)) d = Some s'
           \<and> (consecutiveErrors s' = 0 \<or> consecutiveSuccesses s' = 0)"
  using assms
proof (induction cs arbitrary: w s)
  case Nil
  then show ?case by (simp add: finalWorld_def)
next
  case (Cons c cs)
  from runCall_exclusive [OF Cons.prems, of cfg c]
  obtain s1 where s1: "healthState (world_after (runCall cfg w c)) d = Some s1"
    and ex: "consecutiveErrors s1 = 0 \<or> consecutiveSuccesses s1 = 0"
    by (elim exE conjE)
  from Cons.IH [OF s1 ex] show ?case
    unfolding finalWorld_Cons .
qed

text \<open>
  C5. Starting from a state in which both counters of a domain are 0, after any sequence of
  calls of \<^verbatim>\<open>checkDomain\<close> (on this or other domains, whatever the requests and the sink do)
  the domain has a state in which \<^verbatim>\<open>consecutiveErrors > 0\<close> implies
  \<^verbatim>\<open>consecutiveSuccesses = 0\<close> and the other way round.
\<close>

theorem streak_counters_exclusive:
  "healthState w d = Some s0 \<and> consecutiveErrors s0 = 0 \<and> consecutiveSuccesses s0 = 0 \<longrightarrow>
     (\<exists>s. healthState (finalWorld w (runChecks cfg w cs)) d = Some s
        \<and> (consecutiveErrors s > 0 \<longrightarrow> consecutiveSuccesses s = 0)
        \<and> (consecutiveSuccesses s > 0 \<longrightarrow> consecutiveErrors s = 0))"
proof
  assume h: "healthState w d = Some s0 \<and> consecutiveErrors s0 = 0 \<and> consecutiveSuccesses s0 = 0"
  then have st: "healthState w d = Some s0"
    and ex: "consecutiveErrors s0 = 0 \<or> consecutiveSuccesses s0 = 0"
    by simp_all
  from runChecks_exclusive [OF st ex, of cfg cs]
  obtain s where s: "healthState (finalWorld w (runChecks cfg w cs)) d = Some s"
    and one: "consecutiveErrors s = 0 \<or> consecutiveSuccesses s = 0"
    by (elim exE conjE)
  from one have "(consecutiveErrors s > 0 \<longrightarrow> consecutiveSuccesses s = 0)
      \<and> (consecutiveSuccesses s > 0 \<longrightarrow> consecutiveErrors s = 0)"
    by auto
  with s show "\<exists>s. healthState (finalWorld w (runChecks cfg w cs)) d = Some s
        \<and> (consecutiveErrors s > 0 \<longrightarrow> consecutiveSuccesses s = 0)
        \<and> (consecutiveSuccesses s > 0 \<longrightarrow> consecutiveErrors s = 0)"
    by (intro exI [of _ s] conjI) simp_all
qed

theorem streak_counters_exclusive_witness:
  "\<exists>s. healthState (finalWorld (initialWorld [''d''] \<lparr>files = Map.empty, writable = True\<rparr>)
            (runChecks \<lparr>timeoutSeconds = 10\<rparr>
               (initialWorld [''d''] \<lparr>files = Map.empty, writable = True\<rparr>)
               [Call ''d'' 1000 1050 (Response 200 ''ok'') (\<lambda>n. None),
                Call ''d'' 61000 61050 (Response 500 ''ok'') (\<lambda>n. None),
                Call ''d'' 121000 121050 (Rejected ''Request timeout'') (\<lambda>n. Some ''ECONNREFUSED'')]))
          ''d'' = Some s
       \<and> (consecutiveErrors s = 0 \<or> consecutiveSuccesses s = 0)"
proof -
  let ?cfg = "\<lparr>timeoutSeconds = 10\<rparr>"
  let ?w = "initialWorld [''d''] \<lparr>files = Map.empty, writable = True\<rparr>"
  let ?cs = "[Call ''d'' 1000 1050 (Response 200 ''ok'') (\<lambda>n. None),
                Call ''d'' 61000 61050 (Response 500 ''ok'') (\<lambda>n. None),
                Call ''d'' 121000 121050 (Rejected ''Request timeout'') (\<lambda>n. Some ''ECONNREFUSED'')]"
  have hyp: "healthState ?w ''d'' = Some initialHealth \<and> consecutiveErrors initialHealth = 0
      \<and> consecutiveSuccesses initialHealth = 0"
    by (simp add: initialWorld_def initialHealth_def)
  note t = streak_counters_exclusive [where w = ?w and d = "''d''" and ?s0.0 = initialHealth
      and cfg = ?cfg and cs = ?cs]
  from mp [OF t hyp]
  obtain s where s: "healthState (finalWorld ?w (runChecks ?cfg ?w ?cs)) ''d'' = Some s"
    and one: "consecutiveErrors s > 0 \<longrightarrow> consecutiveSuccesses s = 0"
    by (elim exE conjE)
  from one have "consecutiveErrors s = 0 \<or> consecutiveSuccesses s = 0"
    by auto
  with s show ?thesis
    by (intro exI [of _ s] conjI)
qed

lemma pass_prefix:
  assumes "healthState w d = Some s"
    and "\<forall>c \<in> set cs. callDomain c = d \<and> passes cfg c"
    and "consecutiveSuccesses s + length cs < 10"
  shows "map sent (runChecks cfg w cs) = replicate (length cs) []
       \<and> (\<forall>r \<in> set (runChecks cfg w cs).
            \<exists>t. healthState (world_after r) d = Some t \<and> status t = ''healthy'')
       \<and> (\<exists>s'. healthState (finalWorld w (runChecks cfg w cs)) d = Some s'
            \<and> consecutiveSuccesses s' = consecutiveSuccesses s + length cs)"
  using assms
proof (induction cs arbitrary: w s)
  case Nil
  then show ?case by (simp add: finalWorld_def)
next
  case (Cons c cs)
  obtain startTime now p snk where c: "c = Call d startTime now p snk"
    using Cons.prems(2) by (cases c) auto
  from Cons.prems(2) c have ok: "checkResponse cfg p (now - startTime) = None"
    by auto
  from Cons.prems(3) have quiet: "consecutiveSuccesses s + 1 \<noteq> 10"
    by simp
  let ?r = "checkDomain cfg snk startTime now p d w"
  let ?s' = "healthyUpdate startTime now s"
  note q = checkDomain_pass_quiet [OF Cons.prems(1) ok quiet, of snk]
  have succ: "consecutiveSuccesses ?s' = consecutiveSuccesses s + 1"
    and healthy: "status ?s' = ''healthy''"
    by (simp_all add: healthyUpdate_def)
  have rest: "\<forall>c \<in> set cs. callDomain c = d \<and> passes cfg c"
    using Cons.prems(2) by simp
  have bound: "consecutiveSuccesses ?s' + length cs < 10"
    using Cons.prems(3) succ by simp
  note ih = Cons.IH [OF q(1) rest bound]
  have rc: "runCall cfg w c = ?r"
    by (simp add: c)
  have run: "runChecks cfg w (c # cs) = ?r # runChecks cfg (world_after ?r) cs"
    by (simp add: c Let_def)
  have a: "map sent (runChecks cfg w (c # cs)) = replicate (length (c # cs)) []"
    unfolding run using ih q(2) by simp
  have b: "\<forall>r \<in> set (runChecks cfg w (c # cs)).
            \<exists>t. healthState (world_after r) d = Some t \<and> status t = ''healthy''"
    unfolding run using ih q(1) healthy by simp
  have e: "\<exists>s'. healthState (finalWorld w (runChecks cfg w (c # cs))) d = Some s'
            \<and> consecutiveSuccesses s' = consecutiveSuccesses s + length (c # cs)"
    unfolding finalWorld_Cons rc using ih succ by simp
  from a b e show ?case by (intro conjI)
qed

text \<open>
  C9. A domain that starts in the state \<^verbatim>\<open>unknown\<close> and passes ten checks in a row from
  startup gets a \<open>Recovered\<close> message on the tenth check, although no unhealthy state came
  before: the first nine checks send nothing and leave the domain healthy, and the first
  message of the tenth check is \<open>Recovered\<close> (the only one when the sink accepts it).
\<close>

theorem recovered_from_startup:
  "d \<in> set domains \<and> length cs = 9
     \<and> (\<forall>c \<in> set cs. callDomain c = d \<and> passes cfg c)
     \<and> c10 = Call d startTime now p snk \<and> passes cfg c10 \<longrightarrow>
   (let w0 = initialWorld domains fs;
        rs = runChecks cfg w0 cs;
        r10 = runCall cfg (finalWorld w0 rs) c10
    in status initialHealth = ''unknown''
       \<and> runChecks cfg w0 (cs @ [c10]) = rs @ [r10]
       \<and> map sent rs = replicate 9 []
       \<and> (\<forall>r \<in> set rs. \<exists>t. healthState (world_after r) d = Some t \<and> status t = ''healthy'')
       \<and> (\<exists>more. sent r10 = Recovered d # more)
       \<and> (snk (Recovered d) = None \<longrightarrow> sent r10 = [Recovered d]))"
proof
  assume h: "d \<in> set domains \<and> length cs = 9
     \<and> (\<forall>c \<in> set cs. callDomain c = d \<and> passes cfg c)
     \<and> c10 = Call d startTime now p snk \<and> passes cfg c10"
  let ?w0 = "initialWorld domains fs"
  let ?rs = "runChecks cfg ?w0 cs"
  let ?w9 = "finalWorld ?w0 ?rs"
  let ?r10 = "runCall cfg ?w9 c10"
  from h have dom: "d \<in> set domains" and len: "length cs = 9"
    and calls: "\<forall>c \<in> set cs. callDomain c = d \<and> passes cfg c"
    and c10: "c10 = Call d startTime now p snk" and ok10: "passes cfg c10"
    by blast+
  have st0: "healthState ?w0 d = Some initialHealth"
    using dom by (simp add: initialWorld_def)
  have zero: "consecutiveSuccesses initialHealth + length cs < 10"
    using len by (simp add: initialHealth_def)
  note pre = pass_prefix [OF st0 calls zero]
  from pre have quiet: "map sent ?rs = replicate 9 []"
    using len by simp
  from pre have healthy:
    "\<forall>r \<in> set ?rs. \<exists>t. healthState (world_after r) d = Some t \<and> status t = ''healthy''"
    by (rule conjunct1 [OF conjunct2])
  from pre obtain s9 where s9: "healthState ?w9 d = Some s9"
    and nine: "consecutiveSuccesses s9 = consecutiveSuccesses initialHealth + length cs"
    by (elim exE conjE)
  from nine len have tenth: "consecutiveSuccesses s9 + 1 = 10"
    by (simp add: initialHealth_def)
  from ok10 c10 have ok: "checkResponse cfg p (now - startTime) = None"
    by simp
  have r10: "?r10 = checkDomain cfg snk startTime now p d ?w9"
    by (simp add: c10)
  have first: "\<exists>more. sent ?r10 = Recovered d # more"
  proof (cases "snk (Recovered d)")
    case None
    from checkDomain_pass_tenth(2) [where snk = snk, OF s9 ok tenth None] show ?thesis
      by (simp add: r10)
  next
    case (Some err)
    from checkDomain_pass_tenth_undelivered(2) [where snk = snk, OF s9 ok tenth Some] show ?thesis
      by (simp add: r10)
  qed
  have only: "snk (Recovered d) = None \<longrightarrow> sent ?r10 = [Recovered d]"
    using checkDomain_pass_tenth(2) [where snk = snk, OF s9 ok tenth] by (simp add: r10)
  have unknown: "status initialHealth = ''unknown''"
    by (simp add: initialHealth_def)
  have app: "runChecks cfg ?w0 (cs @ [c10]) = ?rs @ [?r10]"
    by (simp add: runChecks_append Let_def)
  show "let w0 = initialWorld domains fs;
        rs = runChecks cfg w0 cs;
        r10 = runCall cfg (finalWorld w0 rs) c10
    in status initialHealth = ''unknown''
       \<and> runChecks cfg w0 (cs @ [c10]) = rs @ [r10]
       \<and> map sent rs = replicate 9 []
       \<and> (\<forall>r \<in> set rs. \<exists>t. healthState (world_after r) d = Some t \<and> status t = ''healthy'')
       \<and> (\<exists>more. sent r10 = Recovered d # more)
       \<and> (snk (Recovered d) = None \<longrightarrow> sent r10 = [Recovered d])"
    unfolding Let_def
    by (rule conjI [OF unknown conjI [OF app conjI [OF quiet conjI [OF healthy conjI [OF first only]]]]])
qed

theorem recovered_from_startup_witness:
  "map sent (runChecks \<lparr>timeoutSeconds = 10\<rparr>
       (initialWorld [''d''] \<lparr>files = Map.empty, writable = True\<rparr>)
       (replicate 9 (Call ''d'' 1000 1050 (Response 200 ''ok'') (\<lambda>n. None))))
     = replicate 9 []
   \<and> sent (runCall \<lparr>timeoutSeconds = 10\<rparr>
       (finalWorld (initialWorld [''d''] \<lparr>files = Map.empty, writable = True\<rparr>)
          (runChecks \<lparr>timeoutSeconds = 10\<rparr>
             (initialWorld [''d''] \<lparr>files = Map.empty, writable = True\<rparr>)
             (replicate 9 (Call ''d'' 1000 1050 (Response 200 ''ok'') (\<lambda>n. None)))))
       (Call ''d'' 1000 1050 (Response 200 ''ok'') (\<lambda>n. None)))
     = [Recovered ''d'']"
proof -
  let ?cfg = "\<lparr>timeoutSeconds = 10\<rparr>"
  let ?fs = "\<lparr>files = Map.empty, writable = True\<rparr>"
  let ?c = "Call ''d'' 1000 1050 (Response 200 ''ok'') (\<lambda>n. None)"
  have ok: "passes ?cfg ?c"
    by (simp add: checkResponse_def)
  have hyp: "''d'' \<in> set [''d''] \<and> length (replicate 9 ?c) = 9
     \<and> (\<forall>c \<in> set (replicate 9 ?c). callDomain c = ''d'' \<and> passes ?cfg c)
     \<and> ?c = Call ''d'' 1000 1050 (Response 200 ''ok'') (\<lambda>n. None) \<and> passes ?cfg ?c"
    using ok by simp
  note t = recovered_from_startup [where d = "''d''" and domains = "[''d'']"
      and cs = "replicate 9 ?c" and cfg = ?cfg and ?c10.0 = ?c and startTime = 1000
      and now = 1050 and p = "Response 200 ''ok''" and snk = "\<lambda>n. None" and fs = ?fs,
      unfolded Let_def]
  note all = mp [OF t hyp]
  from all have a: "map sent (runChecks ?cfg (initialWorld [''d''] ?fs) (replicate 9 ?c))
      = replicate 9 []"
    by (elim conjE)
  from all have b: "sent (runCall ?cfg (finalWorld (initialWorld [''d''] ?fs)
                  (runChecks ?cfg (initialWorld [''d''] ?fs) (replicate 9 ?c))) ?c)
             = [Recovered ''d'']"
    by (elim conjE) simp
  from a b show ?thesis
    by (rule conjI)
qed

end
